theory Spec2Isabelle
  imports Main "HOL-Library.Word"
begin

section \<open>The request layer of \<^verbatim>\<open>src/index.ts\<close>\<close>

text \<open>
  The file holds two versions of the module, one after the other. The definitions
  follow the first, the one with the rate limiter and the validation helpers.
\<close>

subsection \<open>JavaScript values\<close>

text \<open>
  A JavaScript string is a sequence of UTF-16 code units and \<^verbatim>\<open>s.length\<close> counts
  them, so a string is a list of 16-bit words. String literals of the source are
  written through \<open>ascii\<close>.
\<close>

type_synonym jsstring = "16 word list"

definition ascii :: "string \<Rightarrow> jsstring" where
  "ascii s = map (\<lambda>c. of_nat (of_char c)) s"

text \<open>
  The values a parsed JSON body holds, and \<^verbatim>\<open>undefined\<close> for a property that
  is absent. Of a number the handler asks whether it is truthy, and it sends one as a
  status code; numbers are integers here, and a number that is no integer is left out.
\<close>

datatype jsval =
    JUndefined
  | JNull
  | JBool bool
  | JNum int
  | JStr jsstring
  | JArr "jsval list"
  | JObj "(jsstring \<times> jsval) list"

text \<open>Truthiness, as \<^verbatim>\<open>!x\<close> and \<^verbatim>\<open>x || y\<close> read it.\<close>

fun truthy :: "jsval \<Rightarrow> bool" where
  "truthy JUndefined = False"
| "truthy JNull = False"
| "truthy (JBool b) = b"
| "truthy (JNum n) = (n \<noteq> 0)"
| "truthy (JStr s) = (s \<noteq> [])"
| "truthy (JArr xs) = True"
| "truthy (JObj kvs) = True"

text \<open>\<^verbatim>\<open>null\<close> and \<^verbatim>\<open>undefined\<close>, the two values that have no properties.\<close>

fun nullish :: "jsval \<Rightarrow> bool" where
  "nullish JUndefined = True"
| "nullish JNull = True"
| "nullish v = False"

fun is_string :: "jsval \<Rightarrow> bool" where
  "is_string (JStr s) = True"
| "is_string v = False"

text \<open>\<^verbatim>\<open>x || y\<close>\<close>

definition js_or :: "jsval \<Rightarrow> jsval \<Rightarrow> jsval" where
  "js_or x y = (if truthy x then x else y)"

text \<open>
  Reading a property of \<^verbatim>\<open>null\<close> or \<^verbatim>\<open>undefined\<close> throws a TypeError, whose
  message names the value and the property.
\<close>

datatype js_exception = TypeError jsstring

definition type_error_text :: "jsval \<Rightarrow> jsstring \<Rightarrow> jsstring" where
  "type_error_text v k =
     ascii ''Cannot read properties of '' @
     (if v = JNull then ascii ''null'' else ascii ''undefined'') @
     ascii '' (reading '' @ [0x27] @ k @ [0x27] @ ascii '')''"

text \<open>
  Reading one of the properties \<^verbatim>\<open>output\<close>, \<^verbatim>\<open>fileName\<close>,
  \<^verbatim>\<open>webhookUrl\<close>, \<^verbatim>\<open>executionMode\<close> of a value: \<^verbatim>\<open>null\<close> and
  \<^verbatim>\<open>undefined\<close> throw, an object gives the property (of a key that is written
  twice, JSON.parse keeps the last), and every other value has no property of these
  names.
\<close>

fun get_prop :: "jsval \<Rightarrow> jsstring \<Rightarrow> js_exception + jsval" where
  "get_prop JUndefined k = Inl (TypeError (type_error_text JUndefined k))"
| "get_prop JNull k = Inl (TypeError (type_error_text JNull k))"
| "get_prop (JObj kvs) k =
     Inr (case map_of (rev kvs) k of None \<Rightarrow> JUndefined | Some v \<Rightarrow> v)"
| "get_prop v k = Inr JUndefined"

text \<open>A later read of the same value, where the first read has not thrown.\<close>

definition read_prop :: "jsval \<Rightarrow> jsstring \<Rightarrow> jsval" where
  "read_prop v k = (case get_prop v k of Inr x \<Rightarrow> x | Inl e \<Rightarrow> JUndefined)"

subsection \<open>Rate limiting\<close>

text \<open>
  \<^verbatim>\<open>
  const rateLimitMap = new Map<string, { count: number; resetTime: number }>();
  const RATE_LIMIT_WINDOW = 15 * 60 * 1000; // 15 minutes
  const RATE_LIMIT_MAX_REQUESTS = 100; // 100 requests per window
  \<close>
\<close>

record rate_entry =
  count :: nat
  resetTime :: int

type_synonym rate_map = "jsstring \<rightharpoonup> rate_entry"

definition RATE_LIMIT_WINDOW :: int where
  "RATE_LIMIT_WINDOW = 15 * 60 * 1000"

definition RATE_LIMIT_MAX_REQUESTS :: nat where
  "RATE_LIMIT_MAX_REQUESTS = 100"

text \<open>What the middleware reads of the request: \<^verbatim>\<open>req.ip\<close> and
  \<^verbatim>\<open>req.connection.remoteAddress\<close>, each a string or undefined.\<close>

record peer =
  ip :: "jsstring option"
  remoteAddress :: "jsstring option"

text \<open>
  \<^verbatim>\<open>req.ip || req.connection.remoteAddress || 'unknown'\<close>: the first of the two that
  is a non-empty string, and \<^verbatim>\<open>'unknown'\<close> when neither is.
\<close>

definition clientIP :: "peer \<Rightarrow> jsstring" where
  "clientIP p =
     (if ip p \<noteq> None \<and> ip p \<noteq> Some [] then the (ip p)
      else if remoteAddress p \<noteq> None \<and> remoteAddress p \<noteq> Some [] then the (remoteAddress p)
      else ascii ''unknown'')"

text \<open>
  The middleware either calls \<^verbatim>\<open>next()\<close>, which hands the request to the
  handler, or answers with a status and returns.
\<close>

datatype rl_outcome = Next | Answered nat

text \<open>
  \<^verbatim>\<open>
  function rateLimit(req, res, next) {
    const clientIP = ...; const now = Date.now();
    const rateLimitData = rateLimitMap.get(clientIP);
    if (rateLimitData) {
      if (now > rateLimitData.resetTime) {
        rateLimitMap.set(clientIP, { count: 1, resetTime: now + RATE_LIMIT_WINDOW });
      } else if (rateLimitData.count >= RATE_LIMIT_MAX_REQUESTS) {
        res.status(429).json({...}); return;
      } else { rateLimitData.count++; }
    } else {
      rateLimitMap.set(clientIP, { count: 1, resetTime: now + RATE_LIMIT_WINDOW });
    }
    next();
  }
  \<close>
  The map is the state: the function takes it and returns it updated. \<open>now\<close> is
  the value of \<^verbatim>\<open>Date.now()\<close>.
\<close>

definition rateLimit :: "rate_map \<Rightarrow> peer \<Rightarrow> int \<Rightarrow> rl_outcome \<times> rate_map" where
  "rateLimit m p now =
     (let c = clientIP p in
      case m c of
        Some rateLimitData \<Rightarrow>
          if now > resetTime rateLimitData then
            (Next, m(c \<mapsto> \<lparr>count = 1, resetTime = now + RATE_LIMIT_WINDOW\<rparr>))
          else if count rateLimitData \<ge> RATE_LIMIT_MAX_REQUESTS then
            (Answered 429, m)
          else
            (Next, m(c \<mapsto> rateLimitData\<lparr>count := count rateLimitData + 1\<rparr>))
      | None \<Rightarrow>
          (Next, m(c \<mapsto> \<lparr>count = 1, resetTime = now + RATE_LIMIT_WINDOW\<rparr>)))"

text \<open>
  A run of the middleware over the requests that arrive, in order, each with its
  \<^verbatim>\<open>Date.now()\<close>: the outcomes, and the map at the end.
\<close>

fun rateLimit_run :: "rate_map \<Rightarrow> (peer \<times> int) list \<Rightarrow> rl_outcome list \<times> rate_map" where
  "rateLimit_run m [] = ([], m)"
| "rateLimit_run m ((p, now) # rest) =
     (let (out, m') = rateLimit m p now;
          (outs, m'') = rateLimit_run m' rest
      in (out # outs, m''))"

text \<open>How many requests of the client \<open>c\<close> a run handed to the handler.\<close>

fun forwarded :: "jsstring \<Rightarrow> (peer \<times> int) list \<Rightarrow> rl_outcome list \<Rightarrow> nat" where
  "forwarded c ((p, now) # evs) (out # outs) =
     (if clientIP p = c \<and> out = Next then 1 else 0) + forwarded c evs outs"
| "forwarded c evs outs = 0"

subsection \<open>Input validation helpers\<close>

text \<open>
  \<^verbatim>\<open>
  function validateMarkdownContent(content: string): boolean {
    if (!content || typeof content !== 'string') return false;
    if (content.length > 1000000) return false; // Limit to 1MB of text
    return true;
  }
  \<close>
  The parameter is declared a string, and the function itself tests what it was given,
  so it takes any value.
\<close>

definition validateMarkdownContent :: "jsval \<Rightarrow> bool" where
  "validateMarkdownContent content =
     (if \<not> truthy content \<or> \<not> is_string content then False
      else case content of
        JStr s \<Rightarrow> if length s > 1000000 then False else True
      | _ \<Rightarrow> False)"

text \<open>
  \<^verbatim>\<open>
  function validateFileName(fileName: string): boolean {
    if (!fileName || typeof fileName !== 'string') return false;
    if (fileName.length > 255) return false;
    const dangerousChars = /[<>:"/\\|?*\x00-\x1f]/;
    return !dangerousChars.test(fileName);
  }
  \<close>
\<close>

definition dangerousChar :: "16 word \<Rightarrow> bool" where
  "dangerousChar c \<longleftrightarrow>
     c = 0x3C \<or> c = 0x3E \<or> c = 0x3A \<or> c = 0x22 \<or> c = 0x2F \<or> c = 0x5C \<or>
     c = 0x7C \<or> c = 0x3F \<or> c = 0x2A \<or> c \<le> 0x1F"

definition validateFileName :: "jsval \<Rightarrow> bool" where
  "validateFileName fileName =
     (if \<not> truthy fileName \<or> \<not> is_string fileName then False
      else case fileName of
        JStr s \<Rightarrow> if length s > 255 then False else \<not> list_ex dangerousChar s
      | _ \<Rightarrow> False)"

text \<open>
  \<^verbatim>\<open>
  function validateAccessToken(token: string): boolean {
    if (!token || typeof token !== 'string') return false;
    if (token.length < 100 || token.length > 2048) return false;
    const validTokenPattern = /^[a-zA-Z0-9._-]+$/;
    return validTokenPattern.test(token);
  }
  \<close>
  The pattern has no flag, so it matches a string of one or more characters of the
  class, from its first to its last.
\<close>

definition tokenChar :: "16 word \<Rightarrow> bool" where
  "tokenChar c \<longleftrightarrow>
     (0x61 \<le> c \<and> c \<le> 0x7A) \<or> (0x41 \<le> c \<and> c \<le> 0x5A) \<or> (0x30 \<le> c \<and> c \<le> 0x39) \<or>
     c = 0x2E \<or> c = 0x5F \<or> c = 0x2D"

definition validTokenPattern :: "jsstring \<Rightarrow> bool" where
  "validTokenPattern s \<longleftrightarrow> s \<noteq> [] \<and> list_all tokenChar s"

definition validateAccessToken :: "jsval \<Rightarrow> bool" where
  "validateAccessToken token =
     (if \<not> truthy token \<or> \<not> is_string token then False
      else case token of
        JStr s \<Rightarrow> if length s < 100 \<or> length s > 2048 then False else validTokenPattern s
      | _ \<Rightarrow> False)"

subsection \<open>The handler of \<^verbatim>\<open>POST /\<close>\<close>

text \<open>\<^verbatim>\<open>s.split(sep)\<close> for a separator of one character: never an empty array.\<close>

fun split :: "16 word \<Rightarrow> jsstring \<Rightarrow> jsstring list" where
  "split sep [] = [[]]"
| "split sep (c # cs) =
     (if c = sep then [] # split sep cs
      else case split sep cs of
        w # ws \<Rightarrow> (c # w) # ws
      | [] \<Rightarrow> [[c]])"

text \<open>\<^verbatim>\<open>xs[i]\<close> of an array of strings: \<^verbatim>\<open>undefined\<close> beyond its end.\<close>

definition at_index :: "jsstring list \<Rightarrow> nat \<Rightarrow> jsval" where
  "at_index xs i = (if i < length xs then JStr (xs ! i) else JUndefined)"

text \<open>\<^verbatim>\<open>s.startsWith(prefix)\<close>\<close>

definition startsWith :: "jsstring \<Rightarrow> jsstring \<Rightarrow> bool" where
  "startsWith s prefix \<longleftrightarrow> take (length prefix) s = prefix"

text \<open>
  What \<^verbatim>\<open>convertMarkdownToGoogleDoc\<close> (imported from \<^verbatim>\<open>./services/googleDocs\<close>)
  is to the handler: a call with three arguments that, at some time, resolves to a
  value or rejects with one. Of the value it resolves to the handler copies the
  properties and reads \<^verbatim>\<open>status\<close>.
\<close>

record conv_result =
  res_status :: jsval
  res_rest :: "(jsstring \<times> jsval) list"

text \<open>
  Of a value that the call rejects with, the inner \<^verbatim>\<open>catch\<close> reads
  \<^verbatim>\<open>error.constructor.name\<close>, \<^verbatim>\<open>error.message\<close> and \<^verbatim>\<open>error.status\<close>. The call
  may reject with \<^verbatim>\<open>undefined\<close> or \<^verbatim>\<open>null\<close>, which have no properties, or with
  any other value, which is here what the three reads find.
\<close>

record js_error =
  err_constructor :: jsval
  err_message :: jsval
  err_status :: jsval

datatype thrown =
    ThrownUndefined
  | ThrownNull
  | Thrown js_error

record conv_call =
  markdown :: jsval
  token :: jsval
  name :: jsval

text \<open>
  The conversion is a parameter of the model. It is given the position of the request
  in the batch as well, so that two equal requests may fare differently; it gives the
  time at which the call settles, and how.
\<close>

type_synonym converter = "nat \<Rightarrow> conv_call \<Rightarrow> nat \<times> (thrown + conv_result)"

text \<open>\<^verbatim>\<open>ErrorResponse\<close>; a field that the source leaves out is \<^verbatim>\<open>undefined\<close>.\<close>

record error_response =
  error :: jsstring
  details :: jsval
  status :: jsval

text \<open>
  What the callback of \<^verbatim>\<open>requests.map\<close> returns: an error response, or
  \<^verbatim>\<open>{...result, webhookUrl: request.webhookUrl, executionMode: request.executionMode}\<close>.
\<close>

datatype result =
    ErrorResult error_response
  | DocResult conv_result jsval jsval

text \<open>\<^verbatim>\<open>result.status\<close>\<close>

fun result_status :: "result \<Rightarrow> jsval" where
  "result_status (ErrorResult e) = status e"
| "result_status (DocResult r webhookUrl executionMode) = res_status r"

text \<open>
  The first statement of the inner \<^verbatim>\<open>catch\<close>,
  \<^verbatim>\<open>
  logger.error(`Request ${index + 1}: Conversion failed:`, {
    errorType: error.constructor.name,
    hasMessage: !!error.message,
    statusCode: error.status || error.code
  });
  \<close>
  throws a TypeError when \<^verbatim>\<open>error\<close> is \<^verbatim>\<open>undefined\<close> or \<^verbatim>\<open>null\<close>, and when
  \<^verbatim>\<open>error.constructor\<close> is. Otherwise the \<^verbatim>\<open>catch\<close> goes on with what it reads
  of \<^verbatim>\<open>error\<close>.
\<close>

fun read_thrown :: "thrown \<Rightarrow> js_exception + js_error" where
  "read_thrown ThrownUndefined =
     Inl (TypeError (type_error_text JUndefined (ascii ''constructor'')))"
| "read_thrown ThrownNull =
     Inl (TypeError (type_error_text JNull (ascii ''constructor'')))"
| "read_thrown (Thrown err) =
     (if nullish (err_constructor err)
      then Inl (TypeError (type_error_text (err_constructor err) (ascii ''name'')))
      else Inr err)"

text \<open>
  The callback, for the request at \<open>index\<close>. \<open>production\<close> is
  \<^verbatim>\<open>process.env.NODE_ENV === 'production'\<close>, \<open>authHeader\<close> is
  \<^verbatim>\<open>req.headers.authorization\<close>. It returns what the callback resolves to, or the
  exception it rejects with, and the calls of \<^verbatim>\<open>convertMarkdownToGoogleDoc\<close> it
  has made.
\<close>

definition process_request ::
  "bool \<Rightarrow> converter \<Rightarrow> jsstring option \<Rightarrow> nat \<Rightarrow> jsval \<Rightarrow> (js_exception + result) \<times> conv_call list" where
  "process_request production conv authHeader index request =
     (case get_prop request (ascii ''output'') of
        Inl e \<Rightarrow> (Inl e, [])
      | Inr markdownContent \<Rightarrow>
          let fileName = js_or (read_prop request (ascii ''fileName'')) (JStr (ascii ''Converted from Markdown'')) in
          if \<not> validateMarkdownContent markdownContent then
            (Inr (ErrorResult \<lparr>error = ascii ''Invalid markdown content'',
                details = JStr (ascii ''Markdown content is required and must be less than 1MB''),
                status = JNum 400\<rparr>), [])
          else if \<not> validateFileName fileName then
            (Inr (ErrorResult \<lparr>error = ascii ''Invalid file name'',
                details = JStr (ascii ''File name must be valid and less than 255 characters''),
                status = JNum 400\<rparr>), [])
          else if authHeader = None \<or> authHeader = Some [] \<or>
                  \<not> startsWith (the authHeader) (ascii ''Bearer '') then
            (Inr (ErrorResult \<lparr>error = ascii ''Missing or invalid authorization header'',
                details = JStr (ascii ''Authorization header must be in format: Bearer <token>''),
                status = JNum 401\<rparr>), [])
          else
            let accessToken = at_index (split 0x20 (the authHeader)) 1 in
            if \<not> validateAccessToken accessToken then
              (Inr (ErrorResult \<lparr>error = ascii ''Invalid access token format'',
                  details = JUndefined,
                  status = JNum 401\<rparr>), [])
            else
              let call = \<lparr>markdown = markdownContent, token = accessToken, name = fileName\<rparr> in
              (case snd (conv index call) of
                Inr result \<Rightarrow>
                  (Inr (DocResult result (read_prop request (ascii ''webhookUrl''))
                      (read_prop request (ascii ''executionMode''))), [call])
              | Inl rejection \<Rightarrow>
                  (case read_thrown rejection of
                     Inl e \<Rightarrow> (Inl e, [call])
                   | Inr err \<Rightarrow>
                       let errorMessage =
                         (if production then JStr (ascii ''Failed to convert markdown to Google Doc'')
                          else err_message err)
                       in (Inr (ErrorResult \<lparr>error = ascii ''Failed to convert markdown to Google Doc'',
                             details = errorMessage,
                             status = js_or (err_status err) (JNum 500)\<rparr>), [call]))))"

text \<open>
  The time at which a callback rejects, if it does: before any conversion settles when
  it has made no call, and after its conversion has settled otherwise.
\<close>

definition rejects_at :: "converter \<Rightarrow> nat \<Rightarrow> conv_call list \<Rightarrow> nat" where
  "rejects_at conv index calls =
     (case calls of [] \<Rightarrow> 0 | call # others \<Rightarrow> Suc (fst (conv index call)))"

text \<open>
  \<^verbatim>\<open>Promise.all(requests.map(async (request, index) => ...))\<close>.
  \<^verbatim>\<open>requests.map\<close> starts the callbacks in order, and each runs up to its call of
  the conversion before the next starts, so every call is made. \<^verbatim>\<open>Promise.all\<close>
  resolves to the results in order when every callback resolves, and rejects with the
  exception of the callback that rejects first: the earliest, and of two at the same
  time the one that comes first in the array. The outcome is the results, or the time
  and the exception of that rejection.
\<close>

fun process_all ::
  "bool \<Rightarrow> converter \<Rightarrow> jsstring option \<Rightarrow> nat \<Rightarrow> jsval list \<Rightarrow>
     ((nat \<times> js_exception) + result list) \<times> conv_call list" where
  "process_all production conv authHeader index [] = (Inr [], [])"
| "process_all production conv authHeader index (request # rest) =
     (let (r, calls) = process_request production conv authHeader index request;
          (rs, calls') = process_all production conv authHeader (index + 1) rest
      in (case r of
            Inr x \<Rightarrow> (case rs of Inl later \<Rightarrow> Inl later | Inr xs \<Rightarrow> Inr (x # xs))
          | Inl e \<Rightarrow>
              (case rs of
                 Inl later \<Rightarrow>
                   if fst later < rejects_at conv index calls then Inl later
                   else Inl (rejects_at conv index calls, e)
               | Inr xs \<Rightarrow> Inl (rejects_at conv index calls, e)),
          calls @ calls'))"

text \<open>
  What the handler sends, \<^verbatim>\<open>res.status(code).json(body)\<close>: a status code and a body.
  A value of the bodies is a JSON value, which \<^verbatim>\<open>res.json\<close> can serialise.
\<close>

datatype response_body =
    One result
  | Many "result list"
  | Plain error_response
  | Empty

record http_response =
  status_code :: int
  body :: response_body

text \<open>
  What is not in the repository of \<^verbatim>\<open>res.status(x).json(body)\<close>, Express and Node
  under it, is fixed where their versions agree and a parameter where they differ.
  They agree on a status \<open>x\<close> that is a number: from 100 to 999 it is sent, with the
  body, or without a body for the codes that have none; any other number throws. They
  agree that \<^verbatim>\<open>undefined\<close>, \<^verbatim>\<open>null\<close> and the booleans throw. With a string, an
  array or an object Express 5 throws and Express 4 sends what Node coerces it to, so
  the response to such a status, if there is one, is the parameter
  \<open>with_other_status\<close>. The message of the exception thrown for \<open>x\<close> is the parameter
  \<open>invalid_status_text\<close>. With the code 205 Express sends no body from its version 4.18
  on and the body before: the parameter \<open>strips_205\<close>.
\<close>

record framework =
  with_other_status :: "jsval \<Rightarrow> result \<Rightarrow> http_response option"
  invalid_status_text :: "jsval \<Rightarrow> jsstring"
  strips_205 :: bool

text \<open>
  The status codes whose response has no body: 1xx, 204 and 304, and 205 where Express
  strips it. The codes here are those from 100 on.
\<close>

definition strips_body :: "framework \<Rightarrow> int \<Rightarrow> bool" where
  "strips_body fw n \<longleftrightarrow> n < 200 \<or> n = 204 \<or> n = 304 \<or> (n = 205 \<and> strips_205 fw)"

text \<open>
  \<^verbatim>\<open>res.status(result.status).json(result)\<close>: the response, or none when it throws.
\<close>

fun send_result :: "framework \<Rightarrow> jsval \<Rightarrow> result \<Rightarrow> http_response option" where
  "send_result fw (JNum n) r =
     (if 100 \<le> n \<and> n \<le> 999
      then Some \<lparr>status_code = n, body = (if strips_body fw n then Empty else One r)\<rparr>
      else None)"
| "send_result fw JUndefined r = None"
| "send_result fw JNull r = None"
| "send_result fw (JBool b) r = None"
| "send_result fw x r = with_other_status fw x r"

text \<open>
  The outer \<^verbatim>\<open>catch\<close>:
  \<^verbatim>\<open>
  return res.status(500).json({
    error: 'Internal server error',
    details: process.env.NODE_ENV === 'production' ? 'Please try again later' : error.message
  });
  \<close>
\<close>

definition internal_server_error :: "bool \<Rightarrow> jsstring \<Rightarrow> http_response" where
  "internal_server_error production message =
     \<lparr>status_code = 500,
      body = Plain \<lparr>error = ascii ''Internal server error'',
        details = JStr (if production then ascii ''Please try again later'' else message),
        status = JUndefined\<rparr>\<rparr>"

text \<open>
  \<^verbatim>\<open>
  app.post('/', async (req, res) => {
    try {
      const requests = Array.isArray(req.body) ? req.body : [req.body];
      if (requests.length > 10) {
        return res.status(400).json({ error: 'Too many requests in batch', ... status: 400 });
      }
      const results = await Promise.all(requests.map(async (request, index) => {...}));
      if (results.length === 1) {
        const result = results[0];
        return res.status(result.status).json(result);
      }
      return res.json(results);
    } catch (error) {
      return res.status(500).json({ error: 'Internal server error', details: ... });
    }
  });
  \<close>
  \<^verbatim>\<open>res.json\<close> without \<^verbatim>\<open>res.status\<close> sends the status 200. What reaches the
  outer \<^verbatim>\<open>catch\<close> is the exception that \<^verbatim>\<open>Promise.all\<close> rejects with, or the one
  that \<^verbatim>\<open>res.status(result.status).json(result)\<close> throws.
\<close>

definition requests_of :: "jsval \<Rightarrow> jsval list" where
  "requests_of b = (case b of JArr xs \<Rightarrow> xs | _ \<Rightarrow> [b])"

definition handle_post ::
  "framework \<Rightarrow> bool \<Rightarrow> converter \<Rightarrow> jsstring option \<Rightarrow> jsval \<Rightarrow> http_response \<times> conv_call list" where
  "handle_post fw production conv authHeader reqBody =
     (let requests = requests_of reqBody in
      if length requests > 10 then
        (\<lparr>status_code = 400,
          body = Plain \<lparr>error = ascii ''Too many requests in batch'',
            details = JStr (ascii ''Maximum 10 requests allowed per batch''),
            status = JNum 400\<rparr>\<rparr>, [])
      else
        case process_all production conv authHeader 0 requests of
          (Inr results, calls) \<Rightarrow>
            if length results = 1 then
              (case send_result fw (result_status (hd results)) (hd results) of
                 Some response \<Rightarrow> (response, calls)
               | None \<Rightarrow>
                   (internal_server_error production
                      (invalid_status_text fw (result_status (hd results))), calls))
            else
              (\<lparr>status_code = 200, body = Many results\<rparr>, calls)
        | (Inl (t, TypeError message), calls) \<Rightarrow>
            (internal_server_error production message, calls))"

section \<open>The conversion core\<close>

text \<open>
  The handler imports the conversion from \<^verbatim>\<open>./services/googleDocs\<close> and
  \<^verbatim>\<open>./services/docxConverter\<close>. The definitions of this section follow the
  specification of that core: its data model, the Document Model Builder, the Style
  Resolver and the Remote-Doc Emitter.
\<close>

subsection \<open>Data model\<close>

text \<open>
  Modelled from the spec: the StyleSet of the conversion core, "a set of boolean/optional
  attributes; combinable", with the attributes bold, italic, code and link (optional URL).
\<close>

record StyleSet =
  bold :: bool
  italic :: bool
  code :: bool
  link :: "string option"

text \<open>
  Modelled from the spec: the empty StyleSet of the conversion core, the style of a
  plain-text Run.
\<close>

definition plain :: StyleSet where
  "plain = \<lparr>bold = False, italic = False, code = False, link = None\<rparr>"

text \<open>
  Modelled from the spec: the union of two StyleSets of the conversion core ("nested
  emphasis composes the StyleSet by union, not replacement"). A flag is set when either
  side sets it; of two links the inner one, \<open>b\<close>, stands.
\<close>

definition union_style :: "StyleSet \<Rightarrow> StyleSet \<Rightarrow> StyleSet" where
  "union_style a b =
     \<lparr>bold = (bold a \<or> bold b), italic = (italic a \<or> italic b), code = (code a \<or> code b),
      link = (case link b of Some u \<Rightarrow> Some u | None \<Rightarrow> link a)\<rparr>"

text \<open>
  Modelled from the spec: an entry of the run sequence of an element of the conversion
  core: a Run, "a contiguous span of text with a style set", or the explicit LineBreak
  entry that a hard line break inside a paragraph becomes.
\<close>

datatype run_entry =
    Run string StyleSet
  | LineBreakEntry

text \<open>
  Modelled from the spec: the DocumentElement of the conversion core, the "tagged variant
  over Heading(level 1-6, runs), Paragraph(runs), ListItem(depth, ordered, runs),
  CodeBlock(language: optional string, rawText), LineBreak".
\<close>

datatype DocumentElement =
    Heading nat "run_entry list"
  | Paragraph "run_entry list"
  | ListItem nat bool "run_entry list"
  | CodeBlock "string option" string
  | LineBreak

text \<open>
  Modelled from the spec: the RemoteOperation of the conversion core, the "tagged variant
  InsertText(atIndex, text), UpdateStyle(range, StyleSet), InsertParagraphBullet(range,
  depth, ordered)". A range is its first index and the index after its last.
\<close>

datatype RemoteOperation =
    InsertText nat string
  | UpdateStyle "nat \<times> nat" StyleSet
  | InsertParagraphBullet "nat \<times> nat" nat bool

subsection \<open>The Markdown syntax tree\<close>

text \<open>
  Modelled from the spec: the inline nodes of the Markdown syntax tree that the
  conversion core is given: "text nodes, emphasis/strong nodes, inline-code spans, and
  links", the hard line break, and a node of any other kind, with the name of its kind
  and its text.
\<close>

datatype inline =
    Text string
  | Emphasis "inline list"
  | Strong "inline list"
  | InlineCode string
  | Link string "inline list"
  | Break
  | OtherInline string string

text \<open>
  Modelled from the spec: the lists of the Markdown syntax tree that the conversion core
  is given. A list is ordered or not, has the indentation of its markers in the source
  (the "source Markdown indentation structure"), counted in levels, and has entries; an
  entry has its inline content and the lists nested in it.
\<close>

datatype list_entry = Entry "inline list" "md_list list"
  and md_list = MdList bool nat "list_entry list"

text \<open>
  Modelled from the spec: the block nodes of the Markdown syntax tree that the conversion
  core is given: heading (with its level), paragraph, text, fenced or indented code
  (with its language tag, if present), list, and a node of any other kind, with the name
  of its kind and its text.
\<close>

datatype block =
    HeadingB nat "inline list"
  | ParagraphB "inline list"
  | TextB "inline list"
  | CodeB "string option" string
  | ListB md_list
  | OtherBlock string string

subsection \<open>Style Resolver\<close>

text \<open>
  Modelled from the spec: the Style Resolver of the conversion core, \<open>resolve(node)\<close>,
  the "pure mapping from AST node kind/attributes to the StyleSet vocabulary".
\<close>

fun resolve :: "inline \<Rightarrow> StyleSet" where
  "resolve (Emphasis xs) = plain\<lparr>italic := True\<rparr>"
| "resolve (Strong xs) = plain\<lparr>bold := True\<rparr>"
| "resolve (InlineCode s) = plain\<lparr>code := True\<rparr>"
| "resolve (Link url xs) = plain\<lparr>link := Some url\<rparr>"
| "resolve x = plain"

subsection \<open>Document Model Builder\<close>

text \<open>
  Modelled from the spec: inline resolution in the Document Model Builder of the
  conversion core. Inline nodes "are folded into Runs" under the style inherited from
  the nodes around them, which a node composes with its own by union; a hard line break
  is an explicit LineBreak entry; a node of an unrecognized kind is "degraded to a
  plain-text Run".
\<close>

fun build_inline :: "StyleSet \<Rightarrow> inline \<Rightarrow> run_entry list"
  and build_inlines :: "StyleSet \<Rightarrow> inline list \<Rightarrow> run_entry list" where
  "build_inline st (Text s) = [Run s st]"
| "build_inline st (Emphasis xs) = build_inlines (union_style st (resolve (Emphasis xs))) xs"
| "build_inline st (Strong xs) = build_inlines (union_style st (resolve (Strong xs))) xs"
| "build_inline st (InlineCode s) = [Run s (union_style st (resolve (InlineCode s)))]"
| "build_inline st (Link url xs) = build_inlines (union_style st (resolve (Link url xs))) xs"
| "build_inline st Break = [LineBreakEntry]"
| "build_inline st (OtherInline kind s) = [Run s plain]"
| "build_inlines st [] = []"
| "build_inlines st (x # xs) = build_inline st x @ build_inlines st xs"

text \<open>
  Modelled from the spec: the list case of the Document Model Builder of the conversion
  core: it "emits one ListItem per list entry, recursively flattening nested lists into
  additional ListItem elements with incremented depth, interleaved in document order".
  The depth follows the nesting; the indentation in the source is not read, which is how
  "depth jumps greater than 1 are clamped to +1".
\<close>

fun build_list :: "nat \<Rightarrow> md_list \<Rightarrow> DocumentElement list"
  and build_entries :: "nat \<Rightarrow> bool \<Rightarrow> list_entry list \<Rightarrow> DocumentElement list"
  and build_entry :: "nat \<Rightarrow> bool \<Rightarrow> list_entry \<Rightarrow> DocumentElement list"
  and build_nested :: "nat \<Rightarrow> md_list list \<Rightarrow> DocumentElement list" where
  "build_list depth (MdList ordered indent entries) = build_entries depth ordered entries"
| "build_entries depth ordered [] = []"
| "build_entries depth ordered (e # es) =
     build_entry depth ordered e @ build_entries depth ordered es"
| "build_entry depth ordered (Entry content nested) =
     ListItem depth ordered (build_inlines plain content) # build_nested (depth + 1) nested"
| "build_nested depth [] = []"
| "build_nested depth (l # ls) = build_list depth l @ build_nested depth ls"

text \<open>
  Modelled from the spec: the errors of the Document Model Builder of the conversion
  core, from the taxonomy of the error handling design.
\<close>

datatype build_error = MalformedInput | UnsupportedNesting

text \<open>
  Modelled from the spec: the Document Model Builder of the conversion core on one
  block node. A heading becomes a Heading with its resolved runs, and one whose level
  is not among the levels 1 to 6 of a Heading "exceeds representable depth"; a
  paragraph or text becomes a Paragraph; code becomes a CodeBlock with its language tag
  and its text verbatim; a list is flattened from depth 0; a node of an unrecognized
  kind is degraded to a plain-text Run.
\<close>

fun build_block :: "block \<Rightarrow> build_error + DocumentElement list" where
  "build_block (HeadingB level content) =
     (if 1 \<le> level \<and> level \<le> 6 then Inr [Heading level (build_inlines plain content)]
      else Inl UnsupportedNesting)"
| "build_block (ParagraphB content) = Inr [Paragraph (build_inlines plain content)]"
| "build_block (TextB content) = Inr [Paragraph (build_inlines plain content)]"
| "build_block (CodeB language rawText) = Inr [CodeBlock language rawText]"
| "build_block (ListB l) = Inr (build_list 0 l)"
| "build_block (OtherBlock kind s) = Inr [Paragraph [Run s plain]]"

text \<open>
  Modelled from the spec: \<open>build(astNodes)\<close> of the conversion core, which "traverses
  block nodes in document order"; the first error ends it.
\<close>

fun build :: "block list \<Rightarrow> build_error + DocumentElement list" where
  "build [] = Inr []"
| "build (b # bs) =
     (case build_block b of
        Inl e \<Rightarrow> Inl e
      | Inr elements \<Rightarrow>
          (case build bs of
             Inl e \<Rightarrow> Inl e
           | Inr rest \<Rightarrow> Inr (elements @ rest)))"

text \<open>
  Modelled from the spec: what makes a syntax tree given to the conversion core
  well-formed Markdown: a heading has one of the six levels that Markdown can write.
\<close>

fun well_formed_block :: "block \<Rightarrow> bool" where
  "well_formed_block (HeadingB level content) = (1 \<le> level \<and> level \<le> 6)"
| "well_formed_block b = True"

subsection \<open>Visible text\<close>

text \<open>
  Modelled from the spec: the visible text of an inline node of the syntax tree given to
  the conversion core, Markdown syntax markers apart; a hard line break is a line-break
  character.
\<close>

fun inline_text :: "inline \<Rightarrow> string"
  and inlines_text :: "inline list \<Rightarrow> string" where
  "inline_text (Text s) = s"
| "inline_text (Emphasis xs) = inlines_text xs"
| "inline_text (Strong xs) = inlines_text xs"
| "inline_text (InlineCode s) = s"
| "inline_text (Link url xs) = inlines_text xs"
| "inline_text Break = [CHR 0x0A]"
| "inline_text (OtherInline kind s) = s"
| "inlines_text [] = []"
| "inlines_text (x # xs) = inline_text x @ inlines_text xs"

text \<open>
  Modelled from the spec: the visible text of the entries of a list given to the
  conversion core, one text for each entry, in document order.
\<close>

fun list_texts :: "md_list \<Rightarrow> string list"
  and entries_texts :: "list_entry list \<Rightarrow> string list"
  and entry_texts :: "list_entry \<Rightarrow> string list"
  and nested_texts :: "md_list list \<Rightarrow> string list" where
  "list_texts (MdList ordered indent entries) = entries_texts entries"
| "entries_texts [] = []"
| "entries_texts (e # es) = entry_texts e @ entries_texts es"
| "entry_texts (Entry content nested) = inlines_text content # nested_texts nested"
| "nested_texts [] = []"
| "nested_texts (l # ls) = list_texts l @ nested_texts ls"

text \<open>
  Modelled from the spec: the visible text of a block node given to the conversion
  core, one text for each heading, paragraph, code block and list entry.
\<close>

fun block_texts :: "block \<Rightarrow> string list" where
  "block_texts (HeadingB level content) = [inlines_text content]"
| "block_texts (ParagraphB content) = [inlines_text content]"
| "block_texts (TextB content) = [inlines_text content]"
| "block_texts (CodeB language rawText) = [rawText]"
| "block_texts (ListB l) = list_texts l"
| "block_texts (OtherBlock kind s) = [s]"

text \<open>
  Modelled from the spec: the text of a run sequence of the conversion core, the
  "concatenation of run texts, with LineBreak entries mapped to a literal line-break
  character".
\<close>

fun entries_text :: "run_entry list \<Rightarrow> string" where
  "entries_text [] = []"
| "entries_text (Run s st # es) = s @ entries_text es"
| "entries_text (LineBreakEntry # es) = CHR 0x0A # entries_text es"

text \<open>
  Modelled from the spec: the full text of a DocumentElement of the conversion core,
  which the Remote-Doc Emitter inserts: the text of its runs, the raw text of a code
  block, a line-break character for a LineBreak.
\<close>

fun element_text :: "DocumentElement \<Rightarrow> string" where
  "element_text (Heading level es) = entries_text es"
| "element_text (Paragraph es) = entries_text es"
| "element_text (ListItem depth ordered es) = entries_text es"
| "element_text (CodeBlock language rawText) = rawText"
| "element_text LineBreak = [CHR 0x0A]"










subsection \<open>Remote-Doc Emitter\<close>

text \<open>
  Modelled from the spec: the UpdateStyle operations of the Remote-Doc Emitter of the
  conversion core, "over the sub-ranges corresponding to each Run", a range being the
  position \<open>pos\<close> of the Run in the document and the position after its text.
\<close>

fun style_ops :: "nat \<Rightarrow> run_entry list \<Rightarrow> RemoteOperation list" where
  "style_ops pos [] = []"
| "style_ops pos (Run s st # es) =
     UpdateStyle (pos, pos + length s) st # style_ops (pos + length s) es"
| "style_ops pos (LineBreakEntry # es) = style_ops (pos + 1) es"

text \<open>
  Modelled from the spec: the Remote-Doc Emitter of the conversion core on one
  DocumentElement, at the cursor: "first insert its full text as one InsertText
  operation, then emit UpdateStyle operations over the sub-ranges corresponding to each
  Run using the cursor position recorded before the text insertion"; "list items emit an
  additional InsertParagraphBullet operation, applied after the text/style operations
  for that item". The range of the bullet is the text of the item.
\<close>

fun emit_element :: "nat \<Rightarrow> DocumentElement \<Rightarrow> RemoteOperation list" where
  "emit_element cursor (Heading level es) =
     InsertText cursor (entries_text es) # style_ops cursor es"
| "emit_element cursor (Paragraph es) =
     InsertText cursor (entries_text es) # style_ops cursor es"
| "emit_element cursor (ListItem depth ordered es) =
     InsertText cursor (entries_text es) # style_ops cursor es @
       [InsertParagraphBullet (cursor, cursor + length (entries_text es)) depth ordered]"
| "emit_element cursor (CodeBlock language rawText) = [InsertText cursor rawText]"
| "emit_element cursor LineBreak = [InsertText cursor [CHR 0x0A]]"

text \<open>
  Modelled from the spec: the cursor of the Remote-Doc Emitter of the conversion core
  after an element: "advance the cursor by the inserted text length plus any structural
  paragraph terminator the target format requires". The length of that terminator is
  the parameter \<open>terminator\<close>.
\<close>

definition advance :: "nat \<Rightarrow> nat \<Rightarrow> DocumentElement \<Rightarrow> nat" where
  "advance terminator cursor e = cursor + length (element_text e) + terminator"

text \<open>
  Modelled from the spec: \<open>emit(elements)\<close> of the Remote-Doc Emitter of the conversion
  core, with "a single monotonically increasing cursor starting at the document's initial
  insertion point", threaded through the elements in order.
\<close>

fun emit :: "nat \<Rightarrow> nat \<Rightarrow> DocumentElement list \<Rightarrow> RemoteOperation list" where
  "emit terminator cursor [] = []"
| "emit terminator cursor (e # els) =
     emit_element cursor e @ emit terminator (advance terminator cursor e) els"

text \<open>
  Modelled from the spec: the index that a RemoteOperation of the conversion core
  addresses: the index of an insertion, the first index of a range.
\<close>

fun op_index :: "RemoteOperation \<Rightarrow> nat" where
  "op_index (InsertText i s) = i"
| "op_index (UpdateStyle r st) = fst r"
| "op_index (InsertParagraphBullet r depth ordered) = fst r"

text \<open>
  Modelled from the spec: the InsertText operations of a RemoteOperation sequence of the
  conversion core, in order, each as its index and its text.
\<close>

fun inserts :: "RemoteOperation list \<Rightarrow> (nat \<times> string) list" where
  "inserts [] = []"
| "inserts (InsertText i s # ops) = (i, s) # inserts ops"
| "inserts (x # ops) = inserts ops"

text \<open>
  Modelled from the spec: cursor monotonicity of a RemoteOperation sequence of the
  conversion core: "every operation's addressed index/range lies within [0, cumulative
  inserted length so far]". \<open>len\<close> is the sum of the lengths of the texts that the
  InsertText operations so far have inserted.
\<close>

fun within_inserted :: "nat \<Rightarrow> RemoteOperation list \<Rightarrow> bool" where
  "within_inserted len [] = True"
| "within_inserted len (InsertText i s # ops) =
     (i \<le> len \<and> within_inserted (len + length s) ops)"
| "within_inserted len (UpdateStyle (a, b) st # ops) =
     (a \<le> b \<and> b \<le> len \<and> within_inserted len ops)"
| "within_inserted len (InsertParagraphBullet (a, b) depth ordered # ops) =
     (a \<le> b \<and> b \<le> len \<and> within_inserted len ops)"

text \<open>
  Modelled from the spec: cursor monotonicity of a RemoteOperation sequence of the
  conversion core: "indices across the sequence are non-decreasing when grouped by
  element". An element is an InsertText and the operations up to the next one; \<open>lo\<close> is
  the index of the latest InsertText. No operation addresses an index before it.
\<close>

fun grouped_nondecreasing :: "nat \<Rightarrow> RemoteOperation list \<Rightarrow> bool" where
  "grouped_nondecreasing lo [] = True"
| "grouped_nondecreasing lo (InsertText i s # ops) =
     (lo \<le> i \<and> grouped_nondecreasing i ops)"
| "grouped_nondecreasing lo (x # ops) =
     (lo \<le> op_index x \<and> grouped_nondecreasing lo ops)"

subsection \<open>Applying the operations\<close>

text \<open>
  Modelled from the spec: the failures of a conversion of the conversion core as its
  caller sees them, from the taxonomy of the error handling design: those of the
  builder, which are problems of the input, and RemoteApplyFailure, "collaborator
  batch-update rejected (propagated with the remote error payload, never swallowed)".
\<close>

datatype 'p conversion_error =
    InputProblem build_error
  | RemoteApplyFailure 'p

text \<open>
  Modelled from the spec: how the conversion core applies "one ordered batch (or ordered
  sequence of batches)" through "the collaborator's atomic batch-update call". The
  collaborator is the parameter \<open>apply\<close>: given the document and a batch it returns
  the document with the batch applied, or the payload of its rejection. The batches are
  submitted in order, each to the document that the one before has left; a rejection
  ends it, since "the core performs no retries itself" and does not go on past a
  failure. The result is the outcome and the batches submitted.
\<close>

fun apply_batches ::
  "('d \<Rightarrow> RemoteOperation list \<Rightarrow> 'p + 'd) \<Rightarrow> 'd \<Rightarrow> RemoteOperation list list \<Rightarrow>
     ('p + 'd) \<times> RemoteOperation list list" where
  "apply_batches apply doc [] = (Inr doc, [])"
| "apply_batches apply doc (batch # batches) =
     (case apply doc batch of
        Inl payload \<Rightarrow> (Inl payload, [batch])
      | Inr doc' \<Rightarrow>
          (let (outcome, submitted) = apply_batches apply doc' batches
           in (outcome, batch # submitted)))"

text \<open>
  Modelled from the spec: the remote conversion of the conversion core, "AST, model,
  emit" and the application of the operations. \<open>batches_of\<close> is how the sequence
  is split "into ordered sub-batches" where the API has a maximum batch size. A failure
  of the builder is returned as a problem of the input, before anything is submitted;
  a rejection of the collaborator is returned as RemoteApplyFailure with its payload.
\<close>

definition convert_remote ::
  "(RemoteOperation list \<Rightarrow> RemoteOperation list list) \<Rightarrow>
   ('d \<Rightarrow> RemoteOperation list \<Rightarrow> 'p + 'd) \<Rightarrow> nat \<Rightarrow> nat \<Rightarrow> 'd \<Rightarrow> block list \<Rightarrow>
     ('p conversion_error + 'd) \<times> RemoteOperation list list" where
  "convert_remote batches_of apply terminator start doc ast =
     (case build ast of
        Inl e \<Rightarrow> (Inl (InputProblem e), [])
      | Inr elements \<Rightarrow>
          (case apply_batches apply doc (batches_of (emit terminator start elements)) of
             (Inl payload, submitted) \<Rightarrow> (Inl (RemoteApplyFailure payload), submitted)
           | (Inr doc', submitted) \<Rightarrow> (Inr doc', submitted)))"

section \<open>Properties of the request layer\<close>

subsection \<open>Rate limiting\<close>

lemma rateLimit_other:
  "clientIP p \<noteq> c \<Longrightarrow> snd (rateLimit m p now) c = m c"
  by (simp add: rateLimit_def Let_def split: option.splits)

lemma rateLimit_limited:
  "m (clientIP p) = Some e \<Longrightarrow> now \<le> resetTime e \<Longrightarrow> RATE_LIMIT_MAX_REQUESTS \<le> count e \<Longrightarrow>
   rateLimit m p now = (Answered 429, m)"
  by (simp add: rateLimit_def)

lemma rateLimit_counted:
  "m (clientIP p) = Some e \<Longrightarrow> now \<le> resetTime e \<Longrightarrow> count e < RATE_LIMIT_MAX_REQUESTS \<Longrightarrow>
   rateLimit m p now = (Next, m(clientIP p \<mapsto> e\<lparr>count := count e + 1\<rparr>))"
  by (simp add: rateLimit_def)

lemma rateLimit_reset:
  "m (clientIP p) = Some e \<Longrightarrow> now > resetTime e \<Longrightarrow>
   rateLimit m p now = (Next, m(clientIP p \<mapsto> \<lparr>count = 1, resetTime = now + RATE_LIMIT_WINDOW\<rparr>))"
  by (simp add: rateLimit_def)

lemma rateLimit_fresh:
  "m (clientIP p) = None \<Longrightarrow>
   rateLimit m p now = (Next, m(clientIP p \<mapsto> \<lparr>count = 1, resetTime = now + RATE_LIMIT_WINDOW\<rparr>))"
  by (simp add: rateLimit_def)

text \<open>
  While the window of a client stays the same, the requests of the client that are
  handed on are as many as arrive, up to what is left of the 100.
\<close>

lemma run_in_window:
  assumes "m c = Some e"
    and "\<forall>ev \<in> set evs. clientIP (fst ev) = c \<longrightarrow> snd ev \<le> resetTime e"
  shows "forwarded c evs (fst (rateLimit_run m evs)) =
           min (length (filter (\<lambda>ev. clientIP (fst ev) = c) evs)) (RATE_LIMIT_MAX_REQUESTS - count e)"
  using assms
proof (induction evs arbitrary: m e)
  case Nil
  then show ?case by simp
next
  case (Cons ev evs)
  obtain p t where ev: "ev = (p, t)" by (cases ev)
  obtain out m' where step: "rateLimit m p t = (out, m')" by (cases "rateLimit m p t")
  obtain outs m'' where rest: "rateLimit_run m' evs = (outs, m'')" by (cases "rateLimit_run m' evs")
  have later: "\<forall>ev \<in> set evs. clientIP (fst ev) = c \<longrightarrow> snd ev \<le> resetTime e"
    using Cons.prems(2) by simp
  show ?case
  proof (cases "clientIP p = c")
    case False
    then have "m' c = Some e"
      using rateLimit_other [of p c m t] step Cons.prems(1) by simp
    from Cons.IH [of m' e, OF this later] False show ?thesis
      by (simp add: ev step split_beta)
  next
    case True
    then have t: "t \<le> resetTime e"
      using Cons.prems(2) ev by simp
    show ?thesis
    proof (cases "RATE_LIMIT_MAX_REQUESTS \<le> count e")
      case full: True
      then have "out = Answered 429" "m' = m"
        using rateLimit_limited [of m p e t] True t step Cons.prems(1) by simp_all
      with Cons.IH [of m e, OF Cons.prems(1) later] full True show ?thesis
        by (simp add: ev step split_beta)
    next
      case False
      then have o: "out = Next" and m': "m' = m(c \<mapsto> e\<lparr>count := count e + 1\<rparr>)"
        using rateLimit_counted [of m p e t] True t step Cons.prems(1) by simp_all
      have "m' c = Some (e\<lparr>count := count e + 1\<rparr>)"
        using m' by simp
      from Cons.IH [of m' "e\<lparr>count := count e + 1\<rparr>", OF this] later
      have "forwarded c evs (fst (rateLimit_run m' evs)) =
           min (length (filter (\<lambda>ev. clientIP (fst ev) = c) evs)) (RATE_LIMIT_MAX_REQUESTS - (count e + 1))"
        by simp
      moreover have "Suc (min n (RATE_LIMIT_MAX_REQUESTS - Suc (count e))) =
          min (Suc n) (RATE_LIMIT_MAX_REQUESTS - count e)" for n
        using False by arith
      ultimately show ?thesis
        using True o by (simp add: ev step split_beta)
    qed
  qed
qed

text \<open>The entry of the client counts them.\<close>

lemma run_in_window_state:
  assumes "m c = Some e"
    and "\<forall>ev \<in> set evs. clientIP (fst ev) = c \<longrightarrow> snd ev \<le> resetTime e"
  shows "snd (rateLimit_run m evs) c =
           Some (e\<lparr>count := count e +
             min (length (filter (\<lambda>ev. clientIP (fst ev) = c) evs)) (RATE_LIMIT_MAX_REQUESTS - count e)\<rparr>)"
  using assms
proof (induction evs arbitrary: m e)
  case Nil
  then show ?case by simp
next
  case (Cons ev evs)
  obtain p t where ev: "ev = (p, t)" by (cases ev)
  obtain out m' where step: "rateLimit m p t = (out, m')" by (cases "rateLimit m p t")
  have later: "\<forall>ev \<in> set evs. clientIP (fst ev) = c \<longrightarrow> snd ev \<le> resetTime e"
    using Cons.prems(2) by simp
  show ?case
  proof (cases "clientIP p = c")
    case False
    then have "m' c = Some e"
      using rateLimit_other [of p c m t] step Cons.prems(1) by simp
    from Cons.IH [of m' e, OF this later] False show ?thesis
      by (simp add: ev step split_beta)
  next
    case True
    then have t: "t \<le> resetTime e"
      using Cons.prems(2) ev by simp
    show ?thesis
    proof (cases "RATE_LIMIT_MAX_REQUESTS \<le> count e")
      case full: True
      then have "m' = m"
        using rateLimit_limited [of m p e t] True t step Cons.prems(1) by simp
      with Cons.IH [of m e, OF Cons.prems(1) later] full True show ?thesis
        by (simp add: ev step split_beta)
    next
      case False
      then have m': "m' = m(c \<mapsto> e\<lparr>count := count e + 1\<rparr>)"
        using rateLimit_counted [of m p e t] True t step Cons.prems(1) by simp
      have "m' c = Some (e\<lparr>count := count e + 1\<rparr>)"
        using m' by simp
      from Cons.IH [of m' "e\<lparr>count := count e + 1\<rparr>", OF this] later
      have "snd (rateLimit_run m' evs) c =
          Some (e\<lparr>count := count e + 1 +
             min (length (filter (\<lambda>ev. clientIP (fst ev) = c) evs)) (RATE_LIMIT_MAX_REQUESTS - (count e + 1))\<rparr>)"
        by simp
      moreover have "Suc (k + min n (RATE_LIMIT_MAX_REQUESTS - Suc k)) =
          k + min (Suc n) (RATE_LIMIT_MAX_REQUESTS - k)" if "\<not> RATE_LIMIT_MAX_REQUESTS \<le> k" for n k
        using that by arith
      ultimately show ?thesis
        using True False by (simp add: ev step split_beta)
    qed
  qed
qed

text \<open>
  After the request that opens a window and 99 more of the client in the window, the
  count is 100 and the next request of the client in the window is answered 429.
\<close>

lemma limit_reached:
  assumes opens: "m (clientIP p0) = None \<or> (\<exists>e. m (clientIP p0) = Some e \<and> t0 > resetTime e)"
    and window: "\<forall>ev \<in> set evs. clientIP (fst ev) = clientIP p0 \<longrightarrow> snd ev \<le> t0 + RATE_LIMIT_WINDOW"
    and many: "99 \<le> length (filter (\<lambda>ev. clientIP (fst ev) = clientIP p0) evs)"
    and p: "clientIP p = clientIP p0" "t \<le> t0 + RATE_LIMIT_WINDOW"
  shows "rateLimit (snd (rateLimit_run m ((p0, t0) # evs))) p t =
           (Answered 429, snd (rateLimit_run m ((p0, t0) # evs)))"
proof -
  let ?e = "\<lparr>count = 1, resetTime = t0 + RATE_LIMIT_WINDOW\<rparr>"
  let ?m = "m(clientIP p0 \<mapsto> ?e)"
  have step: "rateLimit m p0 t0 = (Next, ?m)"
    using opens rateLimit_fresh rateLimit_reset by blast
  have "snd (rateLimit_run ?m evs) (clientIP p0) =
      Some (?e\<lparr>count := count ?e +
         min (length (filter (\<lambda>ev. clientIP (fst ev) = clientIP p0) evs)) (RATE_LIMIT_MAX_REQUESTS - count ?e)\<rparr>)"
    using window run_in_window_state [of ?m "clientIP p0" ?e evs] by simp
  then have "snd (rateLimit_run ?m evs) (clientIP p) = Some \<lparr>count = 100, resetTime = t0 + RATE_LIMIT_WINDOW\<rparr>"
    using many p(1) by (simp add: RATE_LIMIT_MAX_REQUESTS_def min_def)
  then have "rateLimit (snd (rateLimit_run ?m evs)) p t = (Answered 429, snd (rateLimit_run ?m evs))"
    using p(2) rateLimit_limited [of "snd (rateLimit_run ?m evs)" p
        "\<lparr>count = 100, resetTime = t0 + RATE_LIMIT_WINDOW\<rparr>" t]
    by (simp add: RATE_LIMIT_MAX_REQUESTS_def)
  then show ?thesis
    by (simp add: step split_beta)
qed

text \<open>
  C8. A request of a client that has no entry, or whose entry has expired, opens a
  window: it is handed on and counted as 1. Of the requests of that client that arrive
  up to the \<^verbatim>\<open>resetTime\<close> of the window, whatever the other clients send meanwhile,
  the middleware hands on at most 100, the opening one included: after the opening
  one and 99 more, the next in the window is answered 429. Once the count of the
  window is 100, a request of the client in the window is answered 429 and
  \<^verbatim>\<open>next()\<close> is not called, and the map is unchanged. A request after
  \<^verbatim>\<open>resetTime\<close> is handed on and sets the count to 1.
\<close>

theorem rateLimit_window:
  "((m (clientIP p0) = None \<or> (\<exists>e. m (clientIP p0) = Some e \<and> t0 > resetTime e)) \<and>
    (\<forall>ev \<in> set evs. clientIP (fst ev) = clientIP p0 \<longrightarrow> snd ev \<le> t0 + RATE_LIMIT_WINDOW) \<longrightarrow>
      forwarded (clientIP p0) ((p0, t0) # evs) (fst (rateLimit_run m ((p0, t0) # evs))) =
        min (1 + length (filter (\<lambda>ev. clientIP (fst ev) = clientIP p0) evs)) 100) \<and>
   ((m (clientIP p0) = None \<or> (\<exists>e. m (clientIP p0) = Some e \<and> t0 > resetTime e)) \<and>
    (\<forall>ev \<in> set evs. clientIP (fst ev) = clientIP p0 \<longrightarrow> snd ev \<le> t0 + RATE_LIMIT_WINDOW) \<and>
    99 \<le> length (filter (\<lambda>ev. clientIP (fst ev) = clientIP p0) evs) \<and>
    clientIP p' = clientIP p0 \<and> t' \<le> t0 + RATE_LIMIT_WINDOW \<longrightarrow>
      rateLimit (snd (rateLimit_run m ((p0, t0) # evs))) p' t' =
        (Answered 429, snd (rateLimit_run m ((p0, t0) # evs)))) \<and>
   (m (clientIP p) = Some e \<and> now \<le> resetTime e \<and> 100 \<le> count e \<longrightarrow>
      rateLimit m p now = (Answered 429, m)) \<and>
   (m (clientIP p) = Some e \<and> now > resetTime e \<longrightarrow>
      rateLimit m p now =
        (Next, m(clientIP p \<mapsto> \<lparr>count = 1, resetTime = now + RATE_LIMIT_WINDOW\<rparr>)))"
proof (intro conjI impI)
  assume a: "(m (clientIP p0) = None \<or> (\<exists>e. m (clientIP p0) = Some e \<and> t0 > resetTime e)) \<and>
    (\<forall>ev \<in> set evs. clientIP (fst ev) = clientIP p0 \<longrightarrow> snd ev \<le> t0 + RATE_LIMIT_WINDOW)"
  let ?e = "\<lparr>count = 1, resetTime = t0 + RATE_LIMIT_WINDOW\<rparr>"
  let ?m = "m(clientIP p0 \<mapsto> ?e)"
  have step: "rateLimit m p0 t0 = (Next, ?m)"
    using a rateLimit_fresh rateLimit_reset by blast
  have "forwarded (clientIP p0) evs (fst (rateLimit_run ?m evs)) =
      min (length (filter (\<lambda>ev. clientIP (fst ev) = clientIP p0) evs)) (RATE_LIMIT_MAX_REQUESTS - count ?e)"
    using a run_in_window [of ?m "clientIP p0" ?e evs] by simp
  then show "forwarded (clientIP p0) ((p0, t0) # evs) (fst (rateLimit_run m ((p0, t0) # evs))) =
        min (1 + length (filter (\<lambda>ev. clientIP (fst ev) = clientIP p0) evs)) 100"
    by (simp add: step split_beta RATE_LIMIT_MAX_REQUESTS_def)
next
  assume "(m (clientIP p0) = None \<or> (\<exists>e. m (clientIP p0) = Some e \<and> t0 > resetTime e)) \<and>
    (\<forall>ev \<in> set evs. clientIP (fst ev) = clientIP p0 \<longrightarrow> snd ev \<le> t0 + RATE_LIMIT_WINDOW) \<and>
    99 \<le> length (filter (\<lambda>ev. clientIP (fst ev) = clientIP p0) evs) \<and>
    clientIP p' = clientIP p0 \<and> t' \<le> t0 + RATE_LIMIT_WINDOW"
  then show "rateLimit (snd (rateLimit_run m ((p0, t0) # evs))) p' t' =
        (Answered 429, snd (rateLimit_run m ((p0, t0) # evs)))"
    using limit_reached [of m p0 t0 evs p' t'] by blast
next
  assume "m (clientIP p) = Some e \<and> now \<le> resetTime e \<and> 100 \<le> count e"
  then show "rateLimit m p now = (Answered 429, m)"
    by (simp add: rateLimit_limited RATE_LIMIT_MAX_REQUESTS_def)
next
  assume "m (clientIP p) = Some e \<and> now > resetTime e"
  then show "rateLimit m p now =
        (Next, m(clientIP p \<mapsto> \<lparr>count = 1, resetTime = now + RATE_LIMIT_WINDOW\<rparr>))"
    by (simp add: rateLimit_reset)
qed

theorem rateLimit_window_witness:
  "Map.empty (clientIP \<lparr>ip = Some (ascii ''10.0.0.1''), remoteAddress = None\<rparr>) = (None :: rate_entry option) \<and>
   forwarded (clientIP \<lparr>ip = Some (ascii ''10.0.0.1''), remoteAddress = None\<rparr>)
     ((\<lparr>ip = Some (ascii ''10.0.0.1''), remoteAddress = None\<rparr>, 0) #
        replicate 100 (\<lparr>ip = Some (ascii ''10.0.0.1''), remoteAddress = None\<rparr>, 5))
     (fst (rateLimit_run Map.empty
        ((\<lparr>ip = Some (ascii ''10.0.0.1''), remoteAddress = None\<rparr>, 0) #
           replicate 100 (\<lparr>ip = Some (ascii ''10.0.0.1''), remoteAddress = None\<rparr>, 5)))) = 100 \<and>
   fst (rateLimit (snd (rateLimit_run Map.empty
        ((\<lparr>ip = Some (ascii ''10.0.0.1''), remoteAddress = None\<rparr>, 0) #
           replicate 100 (\<lparr>ip = Some (ascii ''10.0.0.1''), remoteAddress = None\<rparr>, 5))))
      \<lparr>ip = Some (ascii ''10.0.0.1''), remoteAddress = None\<rparr> 6) = Answered 429 \<and>
   rateLimit [ascii ''10.0.0.1'' \<mapsto> \<lparr>count = 100, resetTime = 10\<rparr>]
       \<lparr>ip = Some (ascii ''10.0.0.1''), remoteAddress = None\<rparr> 5 =
     (Answered 429, [ascii ''10.0.0.1'' \<mapsto> \<lparr>count = 100, resetTime = 10\<rparr>]) \<and>
   rateLimit [ascii ''10.0.0.1'' \<mapsto> \<lparr>count = 100, resetTime = 10\<rparr>]
       \<lparr>ip = Some (ascii ''10.0.0.1''), remoteAddress = None\<rparr> 11 =
     (Next, [ascii ''10.0.0.1'' \<mapsto> \<lparr>count = 1, resetTime = 11 + RATE_LIMIT_WINDOW\<rparr>])"
proof -
  let ?p = "\<lparr>ip = Some (ascii ''10.0.0.1''), remoteAddress = None\<rparr>"
  let ?m = "[ascii ''10.0.0.1'' \<mapsto> \<lparr>count = 100, resetTime = 10\<rparr>]"
  have c: "clientIP ?p = ascii ''10.0.0.1''"
    by (simp add: clientIP_def ascii_def)
  have A: "forwarded (clientIP ?p) ((?p, 0) # replicate 100 (?p, 5))
      (fst (rateLimit_run Map.empty ((?p, 0) # replicate 100 (?p, 5)))) = 100"
    using rateLimit_window [where m = Map.empty and ?p0.0 = ?p and ?t0.0 = 0 and evs = "replicate 100 (?p, 5)"]
    by (simp add: RATE_LIMIT_WINDOW_def)
  have A': "fst (rateLimit (snd (rateLimit_run Map.empty ((?p, 0) # replicate 100 (?p, 5)))) ?p 6) =
      Answered 429"
    using rateLimit_window [where m = Map.empty and ?p0.0 = ?p and ?t0.0 = 0
        and evs = "replicate 100 (?p, 5)" and p' = ?p and t' = 6]
    by (simp add: RATE_LIMIT_WINDOW_def)
  have B: "rateLimit ?m ?p 5 = (Answered 429, ?m)"
    using rateLimit_window [where m = ?m and p = ?p and e = "\<lparr>count = 100, resetTime = 10\<rparr>" and now = 5] c
    by simp
  have C: "rateLimit ?m ?p 11 = (Next, [ascii ''10.0.0.1'' \<mapsto> \<lparr>count = 1, resetTime = 11 + RATE_LIMIT_WINDOW\<rparr>])"
    using rateLimit_window [where m = ?m and p = ?p and e = "\<lparr>count = 100, resetTime = 10\<rparr>" and now = 11] c
    by simp
  from A A' B C show ?thesis
    by simp
qed

subsection \<open>The validators\<close>

lemma validateMarkdownContent_iff:
  "validateMarkdownContent v \<longleftrightarrow> (\<exists>s. v = JStr s \<and> s \<noteq> [] \<and> length s \<le> 1000000)"
  by (cases v) (auto simp: validateMarkdownContent_def)

lemma validateAccessToken_iff:
  "validateAccessToken v \<longleftrightarrow>
     (\<exists>s. v = JStr s \<and> 100 \<le> length s \<and> length s \<le> 2048 \<and> list_all tokenChar s)"
  by (cases v) (auto simp: validateAccessToken_def validTokenPattern_def)

lemma validateFileName_iff:
  "validateFileName v \<longleftrightarrow>
     (\<exists>s. v = JStr s \<and> s \<noteq> [] \<and> length s \<le> 255 \<and> \<not> list_ex dangerousChar s)"
  by (cases v) (auto simp: validateFileName_def)

lemma process_request_calls:
  "c \<in> set (snd (process_request production conv authHeader index request)) \<Longrightarrow>
     get_prop request (ascii ''output'') = Inr (markdown c) \<and>
     validateMarkdownContent (markdown c) \<and> validateFileName (name c) \<and>
     validateAccessToken (token c)"
  by (auto simp: process_request_def Let_def split: sum.splits if_splits)

lemma process_request_invalid_markdown:
  "get_prop request (ascii ''output'') = Inr content \<Longrightarrow> \<not> validateMarkdownContent content \<Longrightarrow>
   process_request production conv authHeader index request =
     (Inr (ErrorResult \<lparr>error = ascii ''Invalid markdown content'',
        details = JStr (ascii ''Markdown content is required and must be less than 1MB''),
        status = JNum 400\<rparr>), [])"
  by (simp add: process_request_def Let_def)

lemma process_all_calls:
  "set (snd (process_all production conv authHeader index requests)) =
     (\<Union>k < length requests. set (snd (process_request production conv authHeader (index + k) (requests ! k))))"
proof (induction requests arbitrary: index)
  case Nil
  then show ?case by simp
next
  case (Cons r rs)
  have "(\<Union>k < length (r # rs). set (snd (process_request production conv authHeader (index + k) ((r # rs) ! k)))) =
        set (snd (process_request production conv authHeader index r)) \<union>
        (\<Union>k < length rs. set (snd (process_request production conv authHeader (Suc index + k) (rs ! k))))"
    by (auto simp: less_Suc_eq_0_disj)
  with Cons show ?case
    by (simp add: split_beta)
qed

lemma handle_post_calls:
  "snd (handle_post fw production conv authHeader reqBody) =
     (if length (requests_of reqBody) > 10 then []
      else snd (process_all production conv authHeader 0 (requests_of reqBody)))"
  by (auto simp: handle_post_def Let_def split: prod.splits sum.splits js_exception.splits option.splits)

subsection \<open>The token of an authorization header\<close>

lemma split_takeWhile:
  "split sep s =
     takeWhile (\<lambda>c. c \<noteq> sep) s #
       (case dropWhile (\<lambda>c. c \<noteq> sep) s of [] \<Rightarrow> [] | x # r \<Rightarrow> split sep r)"
  by (induction s) (auto split: list.splits)

lemma ascii_Bearer: "ascii ''Bearer '' = ascii ''Bearer'' @ [0x20]"
  by (simp add: ascii_def)

lemma Bearer_no_space: "0x20 \<notin> set (ascii ''Bearer'')"
  by (simp add: ascii_def)

lemma split_Bearer:
  "split 0x20 (ascii ''Bearer '' @ r) = ascii ''Bearer'' # split 0x20 r"
proof -
  have "split 0x20 (ascii ''Bearer'' @ 0x20 # r) = ascii ''Bearer'' # split 0x20 r"
    using Bearer_no_space
    by (subst split_takeWhile) (simp add: takeWhile_append dropWhile_append)
  then show ?thesis by (simp add: ascii_Bearer)
qed

lemma bearer_token:
  assumes "startsWith h (ascii ''Bearer '')"
  shows "at_index (split 0x20 h) 1 = JStr (takeWhile (\<lambda>c. c \<noteq> 0x20) (drop 7 h))"
proof -
  have l: "length (ascii ''Bearer '') = 7" by (simp add: ascii_def)
  from assms have "h = ascii ''Bearer '' @ drop 7 h"
    unfolding startsWith_def l by (metis append_take_drop_id)
  then have "split 0x20 h = ascii ''Bearer'' # split 0x20 (drop 7 h)"
    using split_Bearer by metis
  then show ?thesis
    by (subst (asm) (2) split_takeWhile) (simp add: at_index_def)
qed

lemma startsWith_append: "startsWith (p @ r) p"
  by (simp add: startsWith_def)

lemma tokenChar_not_space: "tokenChar c \<Longrightarrow> c \<noteq> 0x20"
  by (auto simp: tokenChar_def)

lemma token_of_header:
  "list_all tokenChar t \<Longrightarrow> at_index (split 0x20 (ascii ''Bearer '' @ t)) 1 = JStr t"
proof -
  assume "list_all tokenChar t"
  then have "0x20 \<notin> set t"
    using tokenChar_not_space by (auto simp: list_all_iff)
  then have "takeWhile (\<lambda>c. c \<noteq> 0x20) t = t"
    by (metis (mono_tags, lifting) takeWhile_eq_all_conv)
  moreover have "length (ascii ''Bearer '') = 7" by (simp add: ascii_def)
  ultimately show ?thesis
    using bearer_token [OF startsWith_append, of t] by simp
qed

lemma tokenChar_a: "tokenChar 0x61"
  by (simp add: tokenChar_def)

lemma valid_token_a: "validateAccessToken (JStr (replicate 100 0x61))"
  by (simp add: validateAccessToken_iff list_all_iff tokenChar_a)

lemma header_a:
  "startsWith (ascii ''Bearer '' @ replicate 100 0x61) (ascii ''Bearer '')"
  "ascii ''Bearer '' @ replicate 100 0x61 \<noteq> []"
  "at_index (split 0x20 (ascii ''Bearer '' @ replicate 100 0x61)) (Suc 0) = JStr (replicate 100 0x61)"
  using token_of_header [of "replicate 100 0x61"]
  by (simp_all add: startsWith_append list_all_iff tokenChar_a)

lemma get_output:
  "get_prop (JObj [(ascii ''output'', v)]) (ascii ''output'') = Inr v"
  "read_prop (JObj [(ascii ''output'', v)]) (ascii ''fileName'') = JUndefined"
  "read_prop (JObj [(ascii ''output'', v)]) (ascii ''webhookUrl'') = JUndefined"
  "read_prop (JObj [(ascii ''output'', v)]) (ascii ''executionMode'') = JUndefined"
  by (simp_all add: read_prop_def ascii_def)

lemma default_name_valid: "validateFileName (JStr (ascii ''Converted from Markdown''))"
  by (simp add: validateFileName_def ascii_def dangerousChar_def)

lemma process_request_reaches:
  assumes "validateMarkdownContent v"
  shows "process_request production conv (Some (ascii ''Bearer '' @ replicate 100 0x61)) index
           (JObj [(ascii ''output'', v)]) =
         (let call = \<lparr>markdown = v, token = JStr (replicate 100 0x61),
                      name = JStr (ascii ''Converted from Markdown'')\<rparr> in
          case snd (conv index call) of
            Inr result \<Rightarrow> (Inr (DocResult result JUndefined JUndefined), [call])
          | Inl rejection \<Rightarrow>
              (case read_thrown rejection of
                 Inl e \<Rightarrow> (Inl e, [call])
               | Inr err \<Rightarrow>
                   (Inr (ErrorResult \<lparr>error = ascii ''Failed to convert markdown to Google Doc'',
                      details = (if production then JStr (ascii ''Failed to convert markdown to Google Doc'')
                                 else err_message err),
                      status = js_or (err_status err) (JNum 500)\<rparr>), [call])))"
  using assms
  by (simp add: process_request_def get_output header_a valid_token_a default_name_valid js_or_def
      Let_def split: sum.splits)

lemma handle_post_one_calls:
  "requests_of b = [r] \<Longrightarrow>
   snd (handle_post fw production conv authHeader b) =
     snd (process_request production conv authHeader 0 r)"
  by (simp add: handle_post_calls split_beta)

lemma requests_of_simps:
  "requests_of (JArr xs) = xs" "requests_of (JObj kvs) = [JObj kvs]"
  by (simp_all add: requests_of_def)

subsection \<open>The content-size ceiling\<close>

text \<open>
  C7. The handler calls \<^verbatim>\<open>convertMarkdownToGoogleDoc\<close> only with content that
  \<open>validateMarkdownContent\<close> accepts, which is a non-empty string of at most 1,000,000
  characters and the \<^verbatim>\<open>output\<close> of one of the requests; and a request whose content
  fails the check gets the error result of status 400, with no call of the conversion.
\<close>

theorem conversion_only_with_validated_content:
  "(c \<in> set (snd (handle_post fw production conv authHeader reqBody)) \<longrightarrow>
      validateMarkdownContent (markdown c) \<and>
      (\<exists>s. markdown c = JStr s \<and> s \<noteq> [] \<and> length s \<le> 1000000) \<and>
      (\<exists>k < length (requests_of reqBody).
          get_prop (requests_of reqBody ! k) (ascii ''output'') = Inr (markdown c))) \<and>
   (get_prop request (ascii ''output'') = Inr content \<and> \<not> validateMarkdownContent content \<longrightarrow>
      process_request production conv authHeader index request =
        (Inr (ErrorResult \<lparr>error = ascii ''Invalid markdown content'',
           details = JStr (ascii ''Markdown content is required and must be less than 1MB''),
           status = JNum 400\<rparr>), []))"
proof (intro conjI impI)
  assume "c \<in> set (snd (handle_post fw production conv authHeader reqBody))"
  then have "c \<in> set (snd (process_all production conv authHeader 0 (requests_of reqBody)))"
    by (simp add: handle_post_calls split: if_splits)
  then obtain k where k: "k < length (requests_of reqBody)"
    and c: "c \<in> set (snd (process_request production conv authHeader k (requests_of reqBody ! k)))"
    by (auto simp: process_all_calls)
  from process_request_calls [OF c]
  show "validateMarkdownContent (markdown c)"
    and "\<exists>s. markdown c = JStr s \<and> s \<noteq> [] \<and> length s \<le> 1000000"
    and "\<exists>k < length (requests_of reqBody).
          get_prop (requests_of reqBody ! k) (ascii ''output'') = Inr (markdown c)"
    using k by (auto simp: validateMarkdownContent_iff)
next
  assume "get_prop request (ascii ''output'') = Inr content \<and> \<not> validateMarkdownContent content"
  then show "process_request production conv authHeader index request =
        (Inr (ErrorResult \<lparr>error = ascii ''Invalid markdown content'',
           details = JStr (ascii ''Markdown content is required and must be less than 1MB''),
           status = JNum 400\<rparr>), [])"
    by (simp add: process_request_invalid_markdown)
qed

theorem conversion_only_with_validated_content_witness:
  "\<lparr>markdown = JStr (ascii ''# T''), token = JStr (replicate 100 0x61),
     name = JStr (ascii ''Converted from Markdown'')\<rparr>
     \<in> set (snd (handle_post \<lparr>with_other_status = (\<lambda>x r. None), invalid_status_text = (\<lambda>x. ascii ''Invalid status code''),
       strips_205 = True\<rparr>
          True (\<lambda>i c. (0, Inr \<lparr>res_status = JNum 200, res_rest = []\<rparr>))
          (Some (ascii ''Bearer '' @ replicate 100 0x61))
          (JObj [(ascii ''output'', JStr (ascii ''# T''))]))) \<and>
   validateMarkdownContent (JStr (ascii ''# T'')) \<and>
   get_prop (JObj [(ascii ''output'', JStr [])]) (ascii ''output'') = Inr (JStr []) \<and>
   \<not> validateMarkdownContent (JStr []) \<and>
   process_request True (\<lambda>i c. (0, Inr \<lparr>res_status = JNum 200, res_rest = []\<rparr>))
       (Some (ascii ''Bearer '' @ replicate 100 0x61)) 0 (JObj [(ascii ''output'', JStr [])]) =
     (Inr (ErrorResult \<lparr>error = ascii ''Invalid markdown content'',
        details = JStr (ascii ''Markdown content is required and must be less than 1MB''),
        status = JNum 400\<rparr>), [])"
proof -
  let ?conv = "\<lambda>(i::nat) (c::conv_call). (0::nat, Inr \<lparr>res_status = JNum 200, res_rest = []\<rparr> :: thrown + conv_result)"
  let ?h = "Some (ascii ''Bearer '' @ replicate 100 0x61)"
  let ?fw = "\<lparr>with_other_status = (\<lambda>x r. None), invalid_status_text = (\<lambda>x. ascii ''Invalid status code''),
       strips_205 = True\<rparr>"
  let ?c = "\<lparr>markdown = JStr (ascii ''# T''), token = JStr (replicate 100 0x61),
     name = JStr (ascii ''Converted from Markdown'')\<rparr>"
  have v: "validateMarkdownContent (JStr (ascii ''# T''))"
    by (simp add: validateMarkdownContent_iff ascii_def)
  have "process_request True ?conv ?h 0 (JObj [(ascii ''output'', JStr (ascii ''# T''))]) =
          (Inr (DocResult \<lparr>res_status = JNum 200, res_rest = []\<rparr> JUndefined JUndefined), [?c])"
    using process_request_reaches [OF v, of True ?conv 0] by simp
  then have call: "?c \<in> set (snd (handle_post ?fw True ?conv ?h (JObj [(ascii ''output'', JStr (ascii ''# T''))])))"
    by (simp add: handle_post_one_calls [OF requests_of_simps(2)])
  have g: "get_prop (JObj [(ascii ''output'', JStr [])]) (ascii ''output'') = Inr (JStr [])"
    by (simp add: get_output)
  have n: "\<not> validateMarkdownContent (JStr [])"
    by (simp add: validateMarkdownContent_iff)
  show ?thesis
    using call g n
      conversion_only_with_validated_content [of ?c ?fw True ?conv ?h
        "JObj [(ascii ''output'', JStr (ascii ''# T''))]" "JObj [(ascii ''output'', JStr [])]" "JStr []" 0]
    by simp
qed

subsection \<open>The access token\<close>

lemma validateAccessToken_bad:
  "length t < 100 \<or> length t > 2048 \<or> (\<exists>c \<in> set t. \<not> tokenChar c) \<Longrightarrow>
   \<not> validateAccessToken (JStr t)"
  by (auto simp: validateAccessToken_iff list_all_iff)

text \<open>
  C9, amended. The token is what the handler takes from the header,
  \<^verbatim>\<open>authHeader.split(' ')[1]\<close>. When the header starts with \<^verbatim>\<open>Bearer \<close> and the
  token is shorter than 100 characters, longer than 2048, or has a character outside
  \<^verbatim>\<open>[a-zA-Z0-9._-]\<close>, the conversion is not called for the request; and when the
  content and the file name of the request have passed their checks, which come first,
  the result is the error of status 401, \<^verbatim>\<open>Invalid access token format\<close>.
\<close>

theorem invalid_token_rejected:
  assumes "startsWith h (ascii ''Bearer '')"
    and "at_index (split 0x20 h) 1 = JStr t"
    and "length t < 100 \<or> length t > 2048 \<or> (\<exists>c \<in> set t. \<not> tokenChar c)"
  shows "snd (process_request production conv (Some h) index request) = [] \<and>
    (get_prop request (ascii ''output'') = Inr content \<and> validateMarkdownContent content \<and>
     validateFileName (js_or (read_prop request (ascii ''fileName'')) (JStr (ascii ''Converted from Markdown''))) \<longrightarrow>
       process_request production conv (Some h) index request =
         (Inr (ErrorResult \<lparr>error = ascii ''Invalid access token format'',
            details = JUndefined, status = JNum 401\<rparr>), []))"
proof -
  have bad: "\<not> validateAccessToken (at_index (split 0x20 h) 1)"
    using assms(2,3) validateAccessToken_bad by simp
  have ne: "h \<noteq> []"
    using assms(1) by (auto simp: startsWith_def ascii_def)
  show ?thesis
    using bad ne assms(1)
    by (auto simp: process_request_def Let_def split: sum.splits)
qed

theorem invalid_token_rejected_witness:
  "startsWith (ascii ''Bearer abc!'') (ascii ''Bearer '') \<and>
   at_index (split 0x20 (ascii ''Bearer abc!'')) 1 = JStr (ascii ''abc!'') \<and>
   length (ascii ''abc!'') < 100 \<and>
   snd (process_request True (\<lambda>i c. (0, Inr \<lparr>res_status = JNum 200, res_rest = []\<rparr>))
     (Some (ascii ''Bearer abc!'')) 0 (JObj [(ascii ''output'', JStr (ascii ''# T''))])) = [] \<and>
   get_prop (JObj [(ascii ''output'', JStr (ascii ''# T''))]) (ascii ''output'') = Inr (JStr (ascii ''# T'')) \<and>
   validateMarkdownContent (JStr (ascii ''# T'')) \<and>
   validateFileName (js_or (read_prop (JObj [(ascii ''output'', JStr (ascii ''# T''))]) (ascii ''fileName''))
      (JStr (ascii ''Converted from Markdown''))) \<and>
   process_request True (\<lambda>i c. (0, Inr \<lparr>res_status = JNum 200, res_rest = []\<rparr>))
     (Some (ascii ''Bearer abc!'')) 0 (JObj [(ascii ''output'', JStr (ascii ''# T''))]) =
     (Inr (ErrorResult \<lparr>error = ascii ''Invalid access token format'',
        details = JUndefined, status = JNum 401\<rparr>), [])"
proof -
  have s: "startsWith (ascii ''Bearer abc!'') (ascii ''Bearer '')"
    by (simp add: startsWith_def ascii_def)
  have t: "at_index (split 0x20 (ascii ''Bearer abc!'')) 1 = JStr (ascii ''abc!'')"
    using bearer_token [OF s] by (simp add: ascii_def)
  have l: "length (ascii ''abc!'') < 100 \<or> length (ascii ''abc!'') > 2048 \<or>
      (\<exists>c \<in> set (ascii ''abc!''). \<not> tokenChar c)"
    by (simp add: ascii_def)
  have g: "get_prop (JObj [(ascii ''output'', JStr (ascii ''# T''))]) (ascii ''output'') = Inr (JStr (ascii ''# T''))"
    by (simp add: get_output)
  have v: "validateMarkdownContent (JStr (ascii ''# T''))"
    by (simp add: validateMarkdownContent_iff ascii_def)
  have f: "validateFileName (js_or (read_prop (JObj [(ascii ''output'', JStr (ascii ''# T''))]) (ascii ''fileName''))
      (JStr (ascii ''Converted from Markdown'')))"
    by (simp add: get_output js_or_def default_name_valid)
  have l': "length (ascii ''abc!'') < 100" by (simp add: ascii_def)
  show ?thesis
    using s t l' g v f
      invalid_token_rejected [OF s t l, of True "\<lambda>i c. (0, Inr \<lparr>res_status = JNum 200, res_rest = []\<rparr>)" 0
        "JObj [(ascii ''output'', JStr (ascii ''# T''))]" "JStr (ascii ''# T'')"]
    by simp
qed

text \<open>
  C9 as stated fails: the content is checked before the token, so a request with an
  empty \<^verbatim>\<open>output\<close> and the token \<^verbatim>\<open>abc\<close> gets the error of status 400.
\<close>

theorem invalid_token_counterexample:
  "startsWith (ascii ''Bearer abc'') (ascii ''Bearer '') \<and>
   at_index (split 0x20 (ascii ''Bearer abc'')) 1 = JStr (ascii ''abc'') \<and>
   length (ascii ''abc'') < 100 \<and>
   process_request True (\<lambda>i c. (0, Inr \<lparr>res_status = JNum 200, res_rest = []\<rparr>))
     (Some (ascii ''Bearer abc'')) 0 (JObj [(ascii ''output'', JStr [])]) =
     (Inr (ErrorResult \<lparr>error = ascii ''Invalid markdown content'',
        details = JStr (ascii ''Markdown content is required and must be less than 1MB''),
        status = JNum 400\<rparr>), [])"
proof -
  have s: "startsWith (ascii ''Bearer abc'') (ascii ''Bearer '')"
    by (simp add: startsWith_def ascii_def)
  have t: "at_index (split 0x20 (ascii ''Bearer abc'')) 1 = JStr (ascii ''abc'')"
    using bearer_token [OF s] by (simp add: ascii_def)
  have n: "\<not> validateMarkdownContent (JStr [])"
    by (simp add: validateMarkdownContent_iff)
  show ?thesis
    using s t process_request_invalid_markdown [OF get_output(1) n]
    by (simp add: ascii_def)
qed

subsection \<open>The shape of the response\<close>

text \<open>
  A callback resolves when the request is not \<^verbatim>\<open>null\<close> and the inner \<^verbatim>\<open>catch\<close> can
  read what its conversion rejects with, if it does.
\<close>

lemma process_request_result:
  assumes "\<not> nullish request"
    and "\<forall>c rejection. c \<in> set (snd (process_request production conv authHeader index request)) \<longrightarrow>
           snd (conv index c) = Inl rejection \<longrightarrow> (\<exists>err. read_thrown rejection = Inr err)"
  shows "\<exists>res. fst (process_request production conv authHeader index request) = Inr res"
proof (cases "snd (process_request production conv authHeader index request)")
  case Nil
  from assms(1) obtain md where "get_prop request (ascii ''output'') = Inr md"
    by (cases request) simp_all
  with Nil show ?thesis
    by (simp add: process_request_def Let_def split: sum.splits if_splits)
next
  case (Cons c cs)
  from assms(1) obtain md where md: "get_prop request (ascii ''output'') = Inr md"
    by (cases request) simp_all
  show ?thesis
  proof (cases "snd (conv index c)")
    case (Inr result)
    with Cons md show ?thesis
      by (auto simp: process_request_def Let_def split: sum.splits if_splits)
  next
    case (Inl rejection)
    with assms(2) Cons obtain err where "read_thrown rejection = Inr err"
      by auto
    with Cons md Inl show ?thesis
      by (auto simp: process_request_def Let_def split: sum.splits if_splits)
  qed
qed

lemma process_all_results:
  "\<forall>k < length requests.
     \<exists>res. fst (process_request production conv authHeader (index + k) (requests ! k)) = Inr res \<Longrightarrow>
   \<exists>results. fst (process_all production conv authHeader index requests) = Inr results \<and>
     length results = length requests \<and>
     (\<forall>k < length requests.
        fst (process_request production conv authHeader (index + k) (requests ! k)) = Inr (results ! k))"
proof (induction requests arbitrary: index)
  case Nil
  then show ?case by simp
next
  case (Cons r rs)
  from Cons.prems [THEN spec, of 0] obtain res where res:
    "fst (process_request production conv authHeader index r) = Inr res"
    by auto
  have "\<forall>k < length rs.
     \<exists>res. fst (process_request production conv authHeader (Suc index + k) (rs ! k)) = Inr res"
  proof (intro allI impI)
    fix k assume "k < length rs"
    with Cons.prems [THEN spec, of "Suc k"]
    show "\<exists>res. fst (process_request production conv authHeader (Suc index + k) (rs ! k)) = Inr res"
      by simp
  qed
  from Cons.IH [OF this] obtain results where rs:
    "fst (process_all production conv authHeader (Suc index) rs) = Inr results"
    "length results = length rs"
    "\<forall>k < length rs. fst (process_request production conv authHeader (Suc index + k) (rs ! k)) = Inr (results ! k)"
    by blast
  have "fst (process_all production conv authHeader index (r # rs)) = Inr (res # results)"
    using res rs(1) by (simp add: split_beta)
  moreover have "\<forall>k < length (r # rs).
        fst (process_request production conv authHeader (index + k) ((r # rs) ! k)) = Inr ((res # results) ! k)"
    using res rs(3) by (auto simp: less_Suc_eq_0_disj)
  ultimately show ?case
    using rs(2) by auto
qed

lemma process_all_rejects:
  "k < length requests \<Longrightarrow>
   fst (process_request production conv authHeader (index + k) (requests ! k)) = Inl e \<Longrightarrow>
   \<exists>rejection. fst (process_all production conv authHeader index requests) = Inl rejection"
proof (induction requests arbitrary: index k)
  case Nil
  then show ?case by simp
next
  case (Cons r rs)
  show ?case
  proof (cases k)
    case 0
    with Cons.prems show ?thesis
      by (cases "fst (process_all production conv authHeader (Suc index) rs)")
         (simp_all add: split_beta)
  next
    case (Suc j)
    with Cons.prems have "j < length rs"
      and "fst (process_request production conv authHeader (Suc index + j) (rs ! j)) = Inl e"
      by simp_all
    from Cons.IH [OF this] obtain rejection where
      "fst (process_all production conv authHeader (Suc index) rs) = Inl rejection"
      by blast
    then show ?thesis
      by (cases "fst (process_request production conv authHeader index r)")
         (simp_all add: split_beta)
  qed
qed

lemma handle_post_results:
  assumes "length (requests_of b) \<le> 10"
    and "fst (process_all production conv authHeader 0 (requests_of b)) = Inr results"
  shows "fst (handle_post fw production conv authHeader b) =
     (if length results = 1 then
        (case send_result fw (result_status (hd results)) (hd results) of
           Some response \<Rightarrow> response
         | None \<Rightarrow> internal_server_error production (invalid_status_text fw (result_status (hd results))))
      else \<lparr>status_code = 200, body = Many results\<rparr>)"
  using assms
  by (cases "process_all production conv authHeader 0 (requests_of b)")
     (simp add: handle_post_def split: option.splits)

lemma handle_post_rejected:
  assumes "length (requests_of b) \<le> 10"
    and "fst (process_all production conv authHeader 0 (requests_of b)) = Inl rejection"
  shows "\<exists>message. fst (handle_post fw production conv authHeader b) =
     internal_server_error production message"
  using assms
  by (cases "process_all production conv authHeader 0 (requests_of b)"; cases rejection;
      cases "snd rejection")
     (auto simp: handle_post_def)

lemma two_elements: "length xs = 2 \<Longrightarrow> xs = [xs ! 0, xs ! 1]"
  by (cases xs; cases "tl xs") auto

text \<open>
  C10, amended. The response of the POST handler, by the number of requests that the
  body yields. More than 10: the status 400, and no conversion is attempted. Exactly
  one, whose callback resolves with a result whose status is a number from 100 to 999:
  the status code of the response is that status and its body is that result, or empty
  for a status code whose response has no body. Exactly one, whose callback resolves
  with a result whose status is \<^verbatim>\<open>undefined\<close>, \<^verbatim>\<open>null\<close>, a boolean or a number
  outside 100 to 999: \<^verbatim>\<open>res.status(result.status).json(result)\<close> throws, and the
  outer \<^verbatim>\<open>catch\<close> answers 500 'Internal server error'. From 2 to 10, whose
  callbacks all resolve: the status 200 and the array of the results, in order. Up to
  10, of which a callback rejects: 500 'Internal server error'. A callback resolves
  when its request is neither \<^verbatim>\<open>null\<close> nor \<^verbatim>\<open>undefined\<close> and its conversion, where
  it is called and rejects, rejects with a value whose constructor the inner
  \<^verbatim>\<open>catch\<close> can read.
\<close>

theorem response_shape:
  "(length (requests_of b) > 10 \<longrightarrow>
      handle_post fw production conv authHeader b =
        (\<lparr>status_code = 400,
          body = Plain \<lparr>error = ascii ''Too many requests in batch'',
            details = JStr (ascii ''Maximum 10 requests allowed per batch''),
            status = JNum 400\<rparr>\<rparr>, [])) \<and>
   (requests_of b = [r] \<and> fst (process_request production conv authHeader 0 r) = Inr res \<and>
    result_status res = JNum n \<and> 100 \<le> n \<and> n \<le> 999 \<longrightarrow>
      fst (handle_post fw production conv authHeader b) =
        \<lparr>status_code = n, body = (if strips_body fw n then Empty else One res)\<rparr>) \<and>
   (requests_of b = [r] \<and> fst (process_request production conv authHeader 0 r) = Inr res \<and>
    (result_status res = JUndefined \<or> result_status res = JNull \<or>
     (\<exists>flag. result_status res = JBool flag) \<or>
     (\<exists>m. result_status res = JNum m \<and> (m < 100 \<or> 999 < m))) \<longrightarrow>
      fst (handle_post fw production conv authHeader b) =
        internal_server_error production (invalid_status_text fw (result_status res))) \<and>
   (2 \<le> length (requests_of b) \<and> length (requests_of b) \<le> 10 \<and>
    length results = length (requests_of b) \<and>
    (\<forall>k < length (requests_of b).
       fst (process_request production conv authHeader k (requests_of b ! k)) = Inr (results ! k)) \<longrightarrow>
      fst (handle_post fw production conv authHeader b) = \<lparr>status_code = 200, body = Many results\<rparr>) \<and>
   (length (requests_of b) \<le> 10 \<and> j < length (requests_of b) \<and>
    fst (process_request production conv authHeader j (requests_of b ! j)) = Inl e \<longrightarrow>
      (\<exists>message. fst (handle_post fw production conv authHeader b) =
         internal_server_error production message)) \<and>
   (\<not> nullish request \<and>
    (\<forall>c rejection. c \<in> set (snd (process_request production conv authHeader index request)) \<longrightarrow>
       snd (conv index c) = Inl rejection \<longrightarrow> (\<exists>err. read_thrown rejection = Inr err)) \<longrightarrow>
      (\<exists>res. fst (process_request production conv authHeader index request) = Inr res))"
proof (intro conjI impI)
  assume "length (requests_of b) > 10"
  then show "handle_post fw production conv authHeader b =
        (\<lparr>status_code = 400,
          body = Plain \<lparr>error = ascii ''Too many requests in batch'',
            details = JStr (ascii ''Maximum 10 requests allowed per batch''),
            status = JNum 400\<rparr>\<rparr>, [])"
    by (simp add: handle_post_def)
next
  assume a: "requests_of b = [r] \<and> fst (process_request production conv authHeader 0 r) = Inr res \<and>
    result_status res = JNum n \<and> 100 \<le> n \<and> n \<le> 999"
  then have "fst (process_all production conv authHeader 0 (requests_of b)) = Inr [res]"
    by (simp add: split_beta)
  from handle_post_results [OF _ this] a
  show "fst (handle_post fw production conv authHeader b) =
        \<lparr>status_code = n, body = (if strips_body fw n then Empty else One res)\<rparr>"
    by simp
next
  assume a: "requests_of b = [r] \<and> fst (process_request production conv authHeader 0 r) = Inr res \<and>
    (result_status res = JUndefined \<or> result_status res = JNull \<or>
     (\<exists>flag. result_status res = JBool flag) \<or>
     (\<exists>m. result_status res = JNum m \<and> (m < 100 \<or> 999 < m)))"
  then have "fst (process_all production conv authHeader 0 (requests_of b)) = Inr [res]"
    by (simp add: split_beta)
  moreover have "send_result fw (result_status res) res = None"
    using a by auto
  ultimately show "fst (handle_post fw production conv authHeader b) =
        internal_server_error production (invalid_status_text fw (result_status res))"
    using handle_post_results [of b production conv authHeader "[res]" fw] a by simp
next
  assume a: "2 \<le> length (requests_of b) \<and> length (requests_of b) \<le> 10 \<and>
    length results = length (requests_of b) \<and>
    (\<forall>k < length (requests_of b).
       fst (process_request production conv authHeader k (requests_of b ! k)) = Inr (results ! k))"
  then have "\<forall>k < length (requests_of b).
     \<exists>res. fst (process_request production conv authHeader (0 + k) (requests_of b ! k)) = Inr res"
    by simp
  from process_all_results [OF this] obtain rs where rs:
    "fst (process_all production conv authHeader 0 (requests_of b)) = Inr rs"
    "length rs = length (requests_of b)"
    "\<forall>k < length (requests_of b).
        fst (process_request production conv authHeader (0 + k) (requests_of b ! k)) = Inr (rs ! k)"
    by blast
  have "rs = results"
  proof (rule nth_equalityI)
    show "length rs = length results" using rs(2) a by simp
    fix i assume "i < length rs"
    then have "i < length (requests_of b)" using rs(2) by simp
    with rs(3) a show "rs ! i = results ! i" by auto
  qed
  with handle_post_results [OF _ rs(1), of fw] a
  show "fst (handle_post fw production conv authHeader b) = \<lparr>status_code = 200, body = Many results\<rparr>"
    by simp
next
  assume a: "length (requests_of b) \<le> 10 \<and> j < length (requests_of b) \<and>
    fst (process_request production conv authHeader j (requests_of b ! j)) = Inl e"
  then obtain rejection where
    "fst (process_all production conv authHeader 0 (requests_of b)) = Inl rejection"
    using process_all_rejects [of j "requests_of b" production conv authHeader 0 e] by auto
  from handle_post_rejected [OF _ this] a
  show "\<exists>message. fst (handle_post fw production conv authHeader b) =
         internal_server_error production message"
    by simp
next
  assume "\<not> nullish request \<and>
    (\<forall>c rejection. c \<in> set (snd (process_request production conv authHeader index request)) \<longrightarrow>
       snd (conv index c) = Inl rejection \<longrightarrow> (\<exists>err. read_thrown rejection = Inr err))"
  then show "\<exists>res. fst (process_request production conv authHeader index request) = Inr res"
    using process_request_result by blast
qed

theorem response_shape_witness:
  "length (requests_of (JArr (replicate 11 (JObj [])))) > 10 \<and>
   handle_post \<lparr>with_other_status = (\<lambda>x r. None), invalid_status_text = (\<lambda>x. ascii ''Invalid status code''),
       strips_205 = True\<rparr>
       True (\<lambda>i c. (0, Inr \<lparr>res_status = JNum 200, res_rest = []\<rparr>))
       (Some (ascii ''Bearer '' @ replicate 100 0x61)) (JArr (replicate 11 (JObj []))) =
     (\<lparr>status_code = 400,
       body = Plain \<lparr>error = ascii ''Too many requests in batch'',
         details = JStr (ascii ''Maximum 10 requests allowed per batch''),
         status = JNum 400\<rparr>\<rparr>, []) \<and>
   requests_of (JObj [(ascii ''output'', JStr (ascii ''# T''))]) = [JObj [(ascii ''output'', JStr (ascii ''# T''))]] \<and>
   \<not> nullish (JObj [(ascii ''output'', JStr (ascii ''# T''))]) \<and>
   fst (process_request True (\<lambda>i c. (0, Inr \<lparr>res_status = JNum 200, res_rest = []\<rparr>))
       (Some (ascii ''Bearer '' @ replicate 100 0x61)) 0 (JObj [(ascii ''output'', JStr (ascii ''# T''))])) =
     Inr (DocResult \<lparr>res_status = JNum 200, res_rest = []\<rparr> JUndefined JUndefined) \<and>
   fst (handle_post \<lparr>with_other_status = (\<lambda>x r. None), invalid_status_text = (\<lambda>x. ascii ''Invalid status code''),
       strips_205 = True\<rparr>
       True (\<lambda>i c. (0, Inr \<lparr>res_status = JNum 200, res_rest = []\<rparr>))
       (Some (ascii ''Bearer '' @ replicate 100 0x61)) (JObj [(ascii ''output'', JStr (ascii ''# T''))])) =
     \<lparr>status_code = 200,
      body = One (DocResult \<lparr>res_status = JNum 200, res_rest = []\<rparr> JUndefined JUndefined)\<rparr> \<and>
   fst (handle_post \<lparr>with_other_status = (\<lambda>x r. None), invalid_status_text = (\<lambda>x. ascii ''Invalid status code''),
       strips_205 = True\<rparr>
       True (\<lambda>i c. (0, Inr \<lparr>res_status = JNum 1000, res_rest = []\<rparr>))
       (Some (ascii ''Bearer '' @ replicate 100 0x61)) (JObj [(ascii ''output'', JStr (ascii ''# T''))])) =
     \<lparr>status_code = 500,
      body = Plain \<lparr>error = ascii ''Internal server error'',
        details = JStr (ascii ''Please try again later''), status = JUndefined\<rparr>\<rparr> \<and>
   length (requests_of (JArr [JObj [(ascii ''output'', JStr (ascii ''# T''))],
       JObj [(ascii ''output'', JStr [])]])) = 2 \<and>
   fst (handle_post \<lparr>with_other_status = (\<lambda>x r. None), invalid_status_text = (\<lambda>x. ascii ''Invalid status code''),
       strips_205 = True\<rparr>
       True (\<lambda>i c. (0, Inr \<lparr>res_status = JNum 200, res_rest = []\<rparr>))
       (Some (ascii ''Bearer '' @ replicate 100 0x61))
       (JArr [JObj [(ascii ''output'', JStr (ascii ''# T''))], JObj [(ascii ''output'', JStr [])]])) =
     \<lparr>status_code = 200,
      body = Many [DocResult \<lparr>res_status = JNum 200, res_rest = []\<rparr> JUndefined JUndefined,
        ErrorResult \<lparr>error = ascii ''Invalid markdown content'',
          details = JStr (ascii ''Markdown content is required and must be less than 1MB''),
          status = JNum 400\<rparr>]\<rparr> \<and>
   fst (handle_post \<lparr>with_other_status = (\<lambda>x r. None), invalid_status_text = (\<lambda>x. ascii ''Invalid status code''),
       strips_205 = True\<rparr>
       True (\<lambda>i c. (0, Inr \<lparr>res_status = JNum 200, res_rest = []\<rparr>))
       (Some (ascii ''Bearer '' @ replicate 100 0x61))
       (JArr [JObj [(ascii ''output'', JStr (ascii ''# T''))], JNull])) =
     \<lparr>status_code = 500,
      body = Plain \<lparr>error = ascii ''Internal server error'',
        details = JStr (ascii ''Please try again later''), status = JUndefined\<rparr>\<rparr>"
proof -
  let ?fw = "\<lparr>with_other_status = (\<lambda>x r. None), invalid_status_text = (\<lambda>x. ascii ''Invalid status code''),
       strips_205 = True\<rparr>"
  let ?conv = "\<lambda>(i::nat) (c::conv_call). (0::nat, Inr \<lparr>res_status = JNum 200, res_rest = []\<rparr> :: thrown + conv_result)"
  let ?conv' = "\<lambda>(i::nat) (c::conv_call). (0::nat, Inr \<lparr>res_status = JNum 1000, res_rest = []\<rparr> :: thrown + conv_result)"
  let ?h = "Some (ascii ''Bearer '' @ replicate 100 0x61)"
  let ?good = "JObj [(ascii ''output'', JStr (ascii ''# T''))]"
  let ?bad = "JObj [(ascii ''output'', JStr [])]"
  let ?doc = "DocResult \<lparr>res_status = JNum 200, res_rest = []\<rparr> JUndefined JUndefined"
  let ?doc' = "DocResult \<lparr>res_status = JNum 1000, res_rest = []\<rparr> JUndefined JUndefined"
  let ?err = "ErrorResult \<lparr>error = ascii ''Invalid markdown content'',
        details = JStr (ascii ''Markdown content is required and must be less than 1MB''),
        status = JNum 400\<rparr>"
  let ?c = "\<lparr>markdown = JStr (ascii ''# T''), token = JStr (replicate 100 0x61),
     name = JStr (ascii ''Converted from Markdown'')\<rparr>"
  have v: "validateMarkdownContent (JStr (ascii ''# T''))"
    by (simp add: validateMarkdownContent_iff ascii_def)
  have n: "\<not> validateMarkdownContent (JStr [])"
    by (simp add: validateMarkdownContent_iff)
  have good: "process_request True ?conv ?h i ?good = (Inr ?doc, [?c])" for i
    by (simp add: process_request_reaches [OF v])
  have good': "process_request True ?conv' ?h i ?good = (Inr ?doc', [?c])" for i
    by (simp add: process_request_reaches [OF v])
  have bad: "fst (process_request True ?conv ?h i ?bad) = Inr ?err" for i
    by (simp add: process_request_invalid_markdown [OF get_output(1) n])
  have null: "fst (process_request True ?conv ?h i JNull) =
      Inl (TypeError (type_error_text JNull (ascii ''output'')))" for i
    by (simp add: process_request_def)
  have many: "length (requests_of (JArr (replicate 11 (JObj [])))) > 10"
    by (simp add: requests_of_simps)
  have A: "handle_post ?fw True ?conv ?h (JArr (replicate 11 (JObj []))) =
     (\<lparr>status_code = 400,
       body = Plain \<lparr>error = ascii ''Too many requests in batch'',
         details = JStr (ascii ''Maximum 10 requests allowed per batch''),
         status = JNum 400\<rparr>\<rparr>, [])"
    using response_shape [where b = "JArr (replicate 11 (JObj []))" and fw = ?fw
        and production = True and conv = ?conv and authHeader = ?h] many
    by blast
  have one: "requests_of ?good = [?good]" and nn: "\<not> nullish ?good"
    by (simp_all add: requests_of_simps)
  have E: "fst (process_request True ?conv ?h 0 ?good) = Inr ?doc"
  proof -
    have "\<forall>c rejection. c \<in> set (snd (process_request True ?conv ?h 0 ?good)) \<longrightarrow>
       snd (?conv 0 c) = Inl rejection \<longrightarrow> (\<exists>err. read_thrown rejection = Inr err)"
      by simp
    with nn response_shape [where request = ?good and production = True and conv = ?conv
        and authHeader = ?h and index = 0]
    have "\<exists>res. fst (process_request True ?conv ?h 0 ?good) = Inr res"
      by blast
    with good [of 0] show ?thesis by simp
  qed
  have B: "fst (handle_post ?fw True ?conv ?h ?good) = \<lparr>status_code = 200, body = One ?doc\<rparr>"
    using response_shape [where b = ?good and r = ?good and res = ?doc and n = 200 and fw = ?fw
        and production = True and conv = ?conv and authHeader = ?h] one good [of 0]
    by (simp add: strips_body_def)
  have C: "fst (handle_post ?fw True ?conv' ?h ?good) =
      \<lparr>status_code = 500,
       body = Plain \<lparr>error = ascii ''Internal server error'',
         details = JStr (ascii ''Please try again later''), status = JUndefined\<rparr>\<rparr>"
    using response_shape [where b = ?good and r = ?good and res = ?doc' and fw = ?fw
        and production = True and conv = ?conv' and authHeader = ?h] one good' [of 0]
    by (simp add: internal_server_error_def)
  have l2: "length (requests_of (JArr [?good, ?bad])) = 2"
    by (simp add: requests_of_simps)
  have D: "fst (handle_post ?fw True ?conv ?h (JArr [?good, ?bad])) =
      \<lparr>status_code = 200, body = Many [?doc, ?err]\<rparr>"
  proof -
    have "\<forall>k < length (requests_of (JArr [?good, ?bad])).
       fst (process_request True ?conv ?h k (requests_of (JArr [?good, ?bad]) ! k)) = Inr ([?doc, ?err] ! k)"
      using good bad by (auto simp: requests_of_simps less_Suc_eq_0_disj)
    with response_shape [where b = "JArr [?good, ?bad]" and results = "[?doc, ?err]" and fw = ?fw
        and production = True and conv = ?conv and authHeader = ?h] l2
    show ?thesis by simp
  qed
  have F: "fst (handle_post ?fw True ?conv ?h (JArr [?good, JNull])) =
      \<lparr>status_code = 500,
       body = Plain \<lparr>error = ascii ''Internal server error'',
         details = JStr (ascii ''Please try again later''), status = JUndefined\<rparr>\<rparr>"
  proof -
    have "length (requests_of (JArr [?good, JNull])) \<le> 10 \<and> 1 < length (requests_of (JArr [?good, JNull])) \<and>
        fst (process_request True ?conv ?h 1 (requests_of (JArr [?good, JNull]) ! 1)) =
          Inl (TypeError (type_error_text JNull (ascii ''output'')))"
      using null [of 1] by (simp add: requests_of_simps)
    with response_shape [where b = "JArr [?good, JNull]" and j = 1 and fw = ?fw
        and e = "TypeError (type_error_text JNull (ascii ''output''))"
        and production = True and conv = ?conv and authHeader = ?h]
    obtain message where "fst (handle_post ?fw True ?conv ?h (JArr [?good, JNull])) =
        internal_server_error True message"
      by blast
    then show ?thesis by (simp add: internal_server_error_def)
  qed
  from many A one nn E B C l2 D F show ?thesis
    by simp
qed

text \<open>
  C10 as stated fails. The body \<^verbatim>\<open>[null]\<close> yields exactly one request, and the
  response is 500 'Internal server error', not the status of a result; so it is for one
  request whose conversion resolves without a status, and for one whose conversion
  rejects with \<^verbatim>\<open>undefined\<close>. For one request whose result has the status 204 the
  response has no body.
\<close>

theorem response_shape_counterexample:
  "length (requests_of (JArr [JNull])) = 1 \<and>
   handle_post \<lparr>with_other_status = (\<lambda>x r. None), invalid_status_text = (\<lambda>x. ascii ''Invalid status code''),
       strips_205 = True\<rparr>
       True (\<lambda>i c. (0, Inr \<lparr>res_status = JNum 200, res_rest = []\<rparr>))
       (Some (ascii ''Bearer '' @ replicate 100 0x61)) (JArr [JNull]) =
     (\<lparr>status_code = 500,
       body = Plain \<lparr>error = ascii ''Internal server error'',
         details = JStr (ascii ''Please try again later''),
         status = JUndefined\<rparr>\<rparr>, []) \<and>
   length (requests_of (JObj [(ascii ''output'', JStr (ascii ''# T''))])) = 1 \<and>
   handle_post \<lparr>with_other_status = (\<lambda>x r. None), invalid_status_text = (\<lambda>x. ascii ''Invalid status code''),
       strips_205 = True\<rparr>
       True (\<lambda>i c. (0, Inr \<lparr>res_status = JUndefined, res_rest = []\<rparr>))
       (Some (ascii ''Bearer '' @ replicate 100 0x61)) (JObj [(ascii ''output'', JStr (ascii ''# T''))]) =
     (\<lparr>status_code = 500,
       body = Plain \<lparr>error = ascii ''Internal server error'',
         details = JStr (ascii ''Please try again later''),
         status = JUndefined\<rparr>\<rparr>,
      [\<lparr>markdown = JStr (ascii ''# T''), token = JStr (replicate 100 0x61),
        name = JStr (ascii ''Converted from Markdown'')\<rparr>]) \<and>
   handle_post \<lparr>with_other_status = (\<lambda>x r. None), invalid_status_text = (\<lambda>x. ascii ''Invalid status code''),
       strips_205 = True\<rparr>
       True (\<lambda>i c. (0, Inl ThrownUndefined))
       (Some (ascii ''Bearer '' @ replicate 100 0x61)) (JObj [(ascii ''output'', JStr (ascii ''# T''))]) =
     (\<lparr>status_code = 500,
       body = Plain \<lparr>error = ascii ''Internal server error'',
         details = JStr (ascii ''Please try again later''),
         status = JUndefined\<rparr>\<rparr>,
      [\<lparr>markdown = JStr (ascii ''# T''), token = JStr (replicate 100 0x61),
        name = JStr (ascii ''Converted from Markdown'')\<rparr>]) \<and>
   handle_post \<lparr>with_other_status = (\<lambda>x r. None), invalid_status_text = (\<lambda>x. ascii ''Invalid status code''),
       strips_205 = True\<rparr>
       True (\<lambda>i c. (0, Inr \<lparr>res_status = JNum 204, res_rest = []\<rparr>))
       (Some (ascii ''Bearer '' @ replicate 100 0x61)) (JObj [(ascii ''output'', JStr (ascii ''# T''))]) =
     (\<lparr>status_code = 204, body = Empty\<rparr>,
      [\<lparr>markdown = JStr (ascii ''# T''), token = JStr (replicate 100 0x61),
        name = JStr (ascii ''Converted from Markdown'')\<rparr>])"
proof -
  have v: "validateMarkdownContent (JStr (ascii ''# T''))"
    by (simp add: validateMarkdownContent_iff ascii_def)
  show ?thesis
    by (simp add: handle_post_def requests_of_simps process_request_reaches [OF v]
        internal_server_error_def strips_body_def)
       (simp add: process_request_def internal_server_error_def)
qed

section \<open>Properties of the conversion core\<close>

subsection \<open>Inline resolution\<close>

lemma entries_text_append: "entries_text (xs @ ys) = entries_text xs @ entries_text ys"
  by (induction xs rule: entries_text.induct) simp_all

lemma build_inline_text:
  "entries_text (build_inline st x) = inline_text x"
  "entries_text (build_inlines st xs) = inlines_text xs"
  by (induction st x and st xs rule: build_inline_build_inlines.induct)
     (simp_all add: entries_text_append)

lemma union_style_plain:
  "union_style st (plain\<lparr>bold := True\<rparr>) = st\<lparr>bold := True\<rparr>"
  "union_style st (plain\<lparr>italic := True\<rparr>) = st\<lparr>italic := True\<rparr>"
  "union_style st (plain\<lparr>code := True\<rparr>) = st\<lparr>code := True\<rparr>"
  by (simp_all add: union_style_def plain_def)

text \<open>
  C4. Nested emphasis composes the style by union. The tree of \<^verbatim>\<open>***text***\<close>, an
  emphasis around a strong (or a strong around an emphasis), yields one Run with bold and
  italic both set. The tree of \<^verbatim>\<open>**a*b*c**\<close>, a strong around a text, an emphasis and
  a text, yields three Runs in order, the middle one bold and italic, the others bold
  only. Whatever style is inherited, a strong or an emphasis sets its flag in it and
  keeps the rest.
\<close>

theorem nested_emphasis_union:
  "build_inline plain (Emphasis [Strong [Text t]]) =
     [Run t \<lparr>bold = True, italic = True, code = False, link = None\<rparr>] \<and>
   build_inline plain (Strong [Emphasis [Text t]]) =
     [Run t \<lparr>bold = True, italic = True, code = False, link = None\<rparr>] \<and>
   build_inline plain (Strong [Text a, Emphasis [Text b], Text c]) =
     [Run a \<lparr>bold = True, italic = False, code = False, link = None\<rparr>,
      Run b \<lparr>bold = True, italic = True, code = False, link = None\<rparr>,
      Run c \<lparr>bold = True, italic = False, code = False, link = None\<rparr>] \<and>
   build_inline st (Strong xs) = build_inlines (st\<lparr>bold := True\<rparr>) xs \<and>
   build_inline st (Emphasis xs) = build_inlines (st\<lparr>italic := True\<rparr>) xs \<and>
   build_inline st (Strong [Emphasis [Text t]]) = [Run t (st\<lparr>bold := True, italic := True\<rparr>)] \<and>
   build_inline st (Emphasis [Strong [Text t]]) = [Run t (st\<lparr>bold := True, italic := True\<rparr>)]"
  by (simp add: union_style_plain) (simp add: plain_def)

subsection \<open>No content is lost\<close>

lemma map_text_build_list:
  "map element_text (build_list d l) = list_texts l"
  "map element_text (build_entries d ord es) = entries_texts es"
  "map element_text (build_entry d ord e) = entry_texts e"
  "map element_text (build_nested d ls) = nested_texts ls"
  by (induction d l and d ord es and d ord e and d ls
      rule: build_list_build_entries_build_entry_build_nested.induct)
     (simp_all add: build_inline_text)

lemma build_block_text:
  "build_block b = Inr els \<Longrightarrow> map element_text els = block_texts b"
  by (cases b) (auto simp: build_inline_text map_text_build_list split: if_splits)

lemma build_block_well_formed:
  "well_formed_block b \<Longrightarrow> \<exists>els. build_block b = Inr els"
  by (cases b) simp_all

lemma build_well_formed:
  "\<forall>b \<in> set ast. well_formed_block b \<Longrightarrow>
   \<exists>els. build ast = Inr els \<and> map element_text els = concat (map block_texts ast)"
proof (induction ast)
  case Nil
  then show ?case by simp
next
  case (Cons b bs)
  then obtain els where els: "build_block b = Inr els"
    using build_block_well_formed [of b] by auto
  from Cons obtain rest where rest: "build bs = Inr rest"
    "map element_text rest = concat (map block_texts bs)"
    by auto
  show ?case
    using els rest build_block_text [OF els] by simp
qed

text \<open>
  C2. On a well-formed syntax tree the builder returns a DocumentElement sequence, never
  an error, and the texts of its elements are the visible texts of the tree, in order:
  no content is lost. A block or inline node of an unrecognized kind becomes a
  plain-text Run that carries its text.
\<close>

theorem build_never_fails:
  "((\<forall>b \<in> set ast. well_formed_block b) \<longrightarrow>
      (\<exists>els. build ast = Inr els \<and> map element_text els = concat (map block_texts ast))) \<and>
   build_block (OtherBlock kind s) = Inr [Paragraph [Run s plain]] \<and>
   build_inline st (OtherInline kind s) = [Run s plain] \<and>
   entries_text (build_inlines st xs) = inlines_text xs"
  using build_well_formed [of ast] by (simp add: build_inline_text)

theorem build_never_fails_witness:
  "well_formed_block (HeadingB 1 [Text ''Title'']) \<and>
   well_formed_block (OtherBlock ''html'' ''raw'') \<and>
   well_formed_block (ParagraphB [Strong [OtherInline ''footnote'' ''note'', Text ''!'']]) \<and>
   build [HeadingB 1 [Text ''Title''], OtherBlock ''html'' ''raw'',
          ParagraphB [Strong [OtherInline ''footnote'' ''note'', Text ''!'']]] =
     Inr [Heading 1 [Run ''Title'' plain], Paragraph [Run ''raw'' plain],
          Paragraph [Run ''note'' plain, Run ''!'' (plain\<lparr>bold := True\<rparr>)]] \<and>
   map element_text [Heading 1 [Run ''Title'' plain], Paragraph [Run ''raw'' plain],
          Paragraph [Run ''note'' plain, Run ''!'' (plain\<lparr>bold := True\<rparr>)]] =
     [''Title'', ''raw'', ''note!'']"
  using build_never_fails [of "[HeadingB 1 [Text ''Title''], OtherBlock ''html'' ''raw'',
          ParagraphB [Strong [OtherInline ''footnote'' ''note'', Text ''!'']]]"]
  by (simp add: union_style_plain)

subsection \<open>List depth\<close>









lemma zip_levels_append:
  "length xs = length ys \<Longrightarrow> zip (xs @ xs') (ys @ ys') = zip xs ys @ zip xs' ys'"
  by simp








subsection \<open>The cursor of the Remote-Doc Emitter\<close>

lemma inserts_append: "inserts (xs @ ys) = inserts xs @ inserts ys"
  by (induction xs rule: inserts.induct) simp_all

lemma inserts_style_ops: "inserts (style_ops pos es) = []"
  by (induction pos es rule: style_ops.induct) simp_all

lemma inserts_emit_element: "inserts (emit_element c e) = [(c, element_text e)]"
  by (cases e) (simp_all add: inserts_append inserts_style_ops)

lemma within_style_ops:
  "pos + length (entries_text es) \<le> len \<Longrightarrow> within_inserted len rest \<Longrightarrow>
   within_inserted len (style_ops pos es @ rest)"
  by (induction pos es rule: style_ops.induct) simp_all

lemma within_emit_element:
  "within_inserted (c + length (element_text e)) rest \<Longrightarrow>
   within_inserted c (emit_element c e @ rest)"
  by (cases e) (simp_all add: within_style_ops)

lemma within_emit: "within_inserted c (emit 0 c els)"
proof (induction els arbitrary: c)
  case Nil
  then show ?case by simp
next
  case (Cons e els)
  have "within_inserted (c + length (element_text e)) (emit 0 (advance 0 c e) els)"
    using Cons.IH [of "advance 0 c e"] by (simp add: advance_def)
  then show ?case
    by (simp add: within_emit_element)
qed

lemma grouped_style_ops:
  "lo \<le> pos \<Longrightarrow> grouped_nondecreasing lo rest \<Longrightarrow>
   grouped_nondecreasing lo (style_ops pos es @ rest)"
  by (induction pos es rule: style_ops.induct) simp_all

lemma grouped_emit_element:
  "lo \<le> c \<Longrightarrow> grouped_nondecreasing c rest \<Longrightarrow>
   grouped_nondecreasing lo (emit_element c e @ rest)"
  by (cases e) (simp_all add: grouped_style_ops)

lemma grouped_emit:
  "lo \<le> c \<Longrightarrow> grouped_nondecreasing lo (emit terminator c els)"
proof (induction els arbitrary: lo c)
  case Nil
  then show ?case by simp
next
  case (Cons e els)
  have "grouped_nondecreasing c (emit terminator (advance terminator c e) els)"
    by (rule Cons.IH) (simp add: advance_def)
  with Cons.prems show ?case
    by (simp add: grouped_emit_element)
qed

lemma inserts_emit_lower:
  "i \<in> set (map fst (inserts (emit terminator c els))) \<Longrightarrow> c \<le> i"
proof (induction els arbitrary: c)
  case Nil
  then show ?case by simp
next
  case (Cons e els)
  then show ?case
    by (fastforce simp: inserts_append inserts_emit_element advance_def)
qed

lemma inserts_emit_sorted: "sorted (map fst (inserts (emit terminator c els)))"
proof (induction els arbitrary: c)
  case Nil
  then show ?case by simp
next
  case (Cons e els)
  have "c \<le> i" if "i \<in> set (map fst (inserts (emit terminator (advance terminator c e) els)))" for i
    using inserts_emit_lower [OF that] by (simp add: advance_def)
  with Cons.IH show ?case
    by (simp add: inserts_append inserts_emit_element del: set_map)
qed

lemma inserts_emit_strict:
  assumes "0 < terminator \<or> (\<forall>e \<in> set els. element_text e \<noteq> [])"
  shows "sorted_wrt (<) (map fst (inserts (emit terminator c els)))"
  using assms
proof (induction els arbitrary: c)
  case Nil
  then show ?case by simp
next
  case (Cons e els)
  have "c < advance terminator c e"
    using Cons.prems by (auto simp: advance_def)
  then have "c < i" if "i \<in> set (map fst (inserts (emit terminator (advance terminator c e) els)))" for i
    using inserts_emit_lower [OF that] by simp
  moreover have "sorted_wrt (<) (map fst (inserts (emit terminator (advance terminator c e) els)))"
    using Cons.prems by (intro Cons.IH) auto
  ultimately show ?case
    by (simp add: inserts_append inserts_emit_element del: set_map)
qed

lemma emit_append:
  "emit terminator c (xs @ ys) =
     emit terminator c xs @
     emit terminator (c + (\<Sum>x\<leftarrow>xs. length (element_text x) + terminator)) ys"
  by (induction xs arbitrary: c) (simp_all add: advance_def add.assoc)

lemma length_inserts_emit: "length (inserts (emit terminator c els)) = length els"
  by (induction els arbitrary: c) (simp_all add: inserts_append inserts_emit_element)

lemma inserts_emit_nth:
  "inserts (emit terminator c (xs @ e # ys)) ! length xs =
     (c + (\<Sum>x\<leftarrow>xs. length (element_text x) + terminator), element_text e)"
  by (simp add: emit_append inserts_append inserts_emit_element nth_append length_inserts_emit)

text \<open>
  C1, amended. In the operations that the emitter makes of any DocumentElement sequence,
  where the target format has no paragraph terminator: the index of every operation,
  and its range, lie within the cumulative inserted length so far, counted from the
  initial insertion point (within [0, cumulative inserted length so far] when that is
  0). From any initial insertion point and for any length of the paragraph terminator:
  the indices are non-decreasing when grouped by element, no operation addressing an
  index before that of the latest InsertText; the indices of the InsertText operations
  never decrease, and strictly increase when there is a terminator or no element has
  an empty text; the InsertText of an element is placed at the initial point advanced
  by the lengths of the texts (and terminators) of all elements before it. Without
  terminator, "Hello" in bold then " World" gives InsertText at 0, UpdateStyle of
  [0,5), InsertText at 5.
\<close>

theorem cursor_monotonicity:
  "within_inserted start (emit 0 start els) \<and>
   within_inserted 0 (emit 0 0 els) \<and>
   grouped_nondecreasing start (emit terminator start els) \<and>
   sorted (map fst (inserts (emit terminator start els))) \<and>
   ((0 < terminator \<or> (\<forall>e \<in> set els. element_text e \<noteq> [])) \<longrightarrow>
      sorted_wrt (<) (map fst (inserts (emit terminator start els)))) \<and>
   inserts (emit terminator start (xs @ e # ys)) ! length xs =
     (start + (\<Sum>x\<leftarrow>xs. length (element_text x) + terminator), element_text e) \<and>
   emit 0 0 [Paragraph [Run ''Hello'' (plain\<lparr>bold := True\<rparr>)], Paragraph [Run '' World'' plain]] =
     [InsertText 0 ''Hello'', UpdateStyle (0, 5) (plain\<lparr>bold := True\<rparr>),
      InsertText 5 '' World'', UpdateStyle (5, 11) plain]"
proof (intro conjI impI)
  show "within_inserted start (emit 0 start els)"
    by (rule within_emit)
  show "within_inserted 0 (emit 0 0 els)"
    by (rule within_emit)
  show "grouped_nondecreasing start (emit terminator start els)"
    by (rule grouped_emit) simp
  show "sorted (map fst (inserts (emit terminator start els)))"
    by (rule inserts_emit_sorted)
  show "sorted_wrt (<) (map fst (inserts (emit terminator start els)))"
    if "0 < terminator \<or> (\<forall>e \<in> set els. element_text e \<noteq> [])"
    using that by (rule inserts_emit_strict)
  show "inserts (emit terminator start (xs @ e # ys)) ! length xs =
     (start + (\<Sum>x\<leftarrow>xs. length (element_text x) + terminator), element_text e)"
    by (rule inserts_emit_nth)
  show "emit 0 0 [Paragraph [Run ''Hello'' (plain\<lparr>bold := True\<rparr>)], Paragraph [Run '' World'' plain]] =
     [InsertText 0 ''Hello'', UpdateStyle (0, 5) (plain\<lparr>bold := True\<rparr>),
      InsertText 5 '' World'', UpdateStyle (5, 11) plain]"
    by (simp add: advance_def)
qed

theorem cursor_monotonicity_witness:
  "element_text (Paragraph [Run ''Hello'' (plain\<lparr>bold := True\<rparr>)]) \<noteq> [] \<and>
   element_text (Paragraph [Run '' World'' plain]) \<noteq> [] \<and>
   map fst (inserts (emit 0 0
     [Paragraph [Run ''Hello'' (plain\<lparr>bold := True\<rparr>)], Paragraph [Run '' World'' plain]])) = [0, 5] \<and>
   sorted_wrt (<) (map fst (inserts (emit 0 0
     [Paragraph [Run ''Hello'' (plain\<lparr>bold := True\<rparr>)], Paragraph [Run '' World'' plain]]))) \<and>
   within_inserted 0 (emit 0 0
     [Paragraph [Run ''Hello'' (plain\<lparr>bold := True\<rparr>)], Paragraph [Run '' World'' plain]]) \<and>
   grouped_nondecreasing 0 (emit 0 0
     [Paragraph [Run ''Hello'' (plain\<lparr>bold := True\<rparr>)], Paragraph [Run '' World'' plain]])"
  using cursor_monotonicity [of 0
      "[Paragraph [Run ''Hello'' (plain\<lparr>bold := True\<rparr>)], Paragraph [Run '' World'' plain]]" 0]
  by (simp add: advance_def)

text \<open>
  C1 as stated fails. The indices do not strictly increase in the order of the
  operations: the UpdateStyle of the first Run of an element starts at the index of
  the InsertText before it. And where the target format has a paragraph terminator, of
  the length 1, the InsertText of " World" after "Hello" is at 6, beyond the 5
  characters inserted so far.
\<close>

theorem cursor_monotonicity_counterexample:
  "map op_index (emit 0 0 [Paragraph [Run ''Hello'' (plain\<lparr>bold := True\<rparr>)]]) = [0, 0] \<and>
   \<not> sorted_wrt (<) (map op_index (emit 0 0 [Paragraph [Run ''Hello'' (plain\<lparr>bold := True\<rparr>)]])) \<and>
   emit 1 0 [Paragraph [Run ''Hello'' (plain\<lparr>bold := True\<rparr>)], Paragraph [Run '' World'' plain]] =
     [InsertText 0 ''Hello'', UpdateStyle (0, 5) (plain\<lparr>bold := True\<rparr>),
      InsertText 6 '' World'', UpdateStyle (6, 12) plain] \<and>
   \<not> within_inserted 0
       (emit 1 0 [Paragraph [Run ''Hello'' (plain\<lparr>bold := True\<rparr>)], Paragraph [Run '' World'' plain]])"
  by (simp add: advance_def)

subsection \<open>A batch that the collaborator rejects\<close>

lemma apply_batches_append:
  "apply_batches apply doc xs = (Inr doc', xs) \<Longrightarrow>
   apply_batches apply doc (xs @ ys) =
     (fst (apply_batches apply doc' ys), xs @ snd (apply_batches apply doc' ys))"
proof (induction xs arbitrary: doc)
  case Nil
  then show ?case by simp
next
  case (Cons x xs)
  show ?case
  proof (cases "apply doc x")
    case (Inl p)
    with Cons.prems show ?thesis by simp
  next
    case (Inr d)
    with Cons.prems have "apply_batches apply d xs = (Inr doc', xs)"
      by (simp add: split_beta prod_eq_iff)
    from Cons.IH [OF this] Inr show ?thesis
      by (simp add: split_beta)
  qed
qed

lemma apply_batches_rejected:
  "fst (apply_batches apply doc bs) = Inl payload \<Longrightarrow>
   \<exists>before b after doc'. bs = before @ b # after \<and>
     apply_batches apply doc before = (Inr doc', before) \<and> apply doc' b = Inl payload \<and>
     snd (apply_batches apply doc bs) = before @ [b]"
proof (induction bs arbitrary: doc)
  case Nil
  then show ?case by simp
next
  case (Cons x xs)
  show ?case
  proof (cases "apply doc x")
    case (Inl p)
    with Cons.prems have "p = payload" by simp
    with Inl have "x # xs = [] @ x # xs \<and> apply_batches apply doc [] = (Inr doc, []) \<and>
       apply doc x = Inl payload \<and> snd (apply_batches apply doc (x # xs)) = [] @ [x]"
      by simp
    then show ?thesis by blast
  next
    case (Inr d)
    with Cons.prems have "fst (apply_batches apply d xs) = Inl payload"
      by (simp add: split_beta)
    from Cons.IH [OF this] obtain before b after doc' where
      r: "xs = before @ b # after" "apply_batches apply d before = (Inr doc', before)"
         "apply doc' b = Inl payload" "snd (apply_batches apply d xs) = before @ [b]"
      by blast
    have "x # xs = (x # before) @ b # after \<and>
       apply_batches apply doc (x # before) = (Inr doc', x # before) \<and>
       apply doc' b = Inl payload \<and> snd (apply_batches apply doc (x # xs)) = (x # before) @ [b]"
      using r Inr by (simp add: split_beta)
    then show ?thesis by blast
  qed
qed

lemma apply_batches_rejects:
  assumes "apply_batches apply doc before = (Inr doc', before)" and "apply doc' b = Inl payload"
  shows "apply_batches apply doc (before @ b # after) = (Inl payload, before @ [b])"
  using apply_batches_append [OF assms(1), of "b # after"] assms(2) by simp

text \<open>
  C3. A conversion whose first batches the collaborator applies and whose next batch it
  rejects fails with RemoteApplyFailure and the payload of that rejection, unchanged,
  having submitted the batches up to the rejected one, once each, and none after it:
  the failure is neither swallowed nor replaced, and nothing is retried. A
  RemoteApplyFailure of the conversion carries the payload with which the collaborator
  has rejected the last batch submitted. A failure of the conversion is a problem of
  the input exactly when the builder fails, and then nothing has been submitted: the
  caller can tell the two apart.
\<close>

theorem remote_failure_propagated:
  "(build ast = Inr elements \<and> batches_of (emit terminator start elements) = before @ b # after \<and>
    apply_batches apply doc before = (Inr doc', before) \<and> apply doc' b = Inl payload \<longrightarrow>
      convert_remote batches_of apply terminator start doc ast =
        (Inl (RemoteApplyFailure payload), before @ [b])) \<and>
   (fst (convert_remote batches_of apply terminator start doc ast) = Inl (RemoteApplyFailure payload) \<longrightarrow>
      (\<exists>elements before b after doc'.
         build ast = Inr elements \<and> batches_of (emit terminator start elements) = before @ b # after \<and>
         apply_batches apply doc before = (Inr doc', before) \<and> apply doc' b = Inl payload \<and>
         snd (convert_remote batches_of apply terminator start doc ast) = before @ [b])) \<and>
   (fst (convert_remote batches_of apply terminator start doc ast) = Inl (InputProblem e) \<longleftrightarrow>
      build ast = Inl e) \<and>
   (build ast = Inl e \<longrightarrow> snd (convert_remote batches_of apply terminator start doc ast) = [])"
proof (intro conjI impI)
  assume a: "build ast = Inr elements \<and> batches_of (emit terminator start elements) = before @ b # after \<and>
    apply_batches apply doc before = (Inr doc', before) \<and> apply doc' b = Inl payload"
  then have "apply_batches apply doc before = (Inr doc', before)" and "apply doc' b = Inl payload"
    by simp_all
  then have "apply_batches apply doc (before @ b # after) = (Inl payload, before @ [b])"
    by (rule apply_batches_rejects)
  with a have "apply_batches apply doc (batches_of (emit terminator start elements)) =
      (Inl payload, before @ [b])"
    by simp
  with a show "convert_remote batches_of apply terminator start doc ast =
        (Inl (RemoteApplyFailure payload), before @ [b])"
    by (simp add: convert_remote_def)
next
  assume a: "fst (convert_remote batches_of apply terminator start doc ast) =
      Inl (RemoteApplyFailure payload)"
  then obtain elements where els: "build ast = Inr elements"
    by (cases "build ast") (simp_all add: convert_remote_def)
  let ?r = "apply_batches apply doc (batches_of (emit terminator start elements))"
  have c: "convert_remote batches_of apply terminator start doc ast =
      (case fst ?r of Inl p \<Rightarrow> Inl (RemoteApplyFailure p) | Inr d \<Rightarrow> Inr d, snd ?r)"
    using els by (simp add: convert_remote_def split: prod.splits sum.splits)
  with a have "fst ?r = Inl payload"
    by (simp split: sum.splits)
  from apply_batches_rejected [OF this] c els
  show "\<exists>elements before b after doc'.
         build ast = Inr elements \<and> batches_of (emit terminator start elements) = before @ b # after \<and>
         apply_batches apply doc before = (Inr doc', before) \<and> apply doc' b = Inl payload \<and>
         snd (convert_remote batches_of apply terminator start doc ast) = before @ [b]"
    by auto
next
  show "fst (convert_remote batches_of apply terminator start doc ast) = Inl (InputProblem e) \<longleftrightarrow>
      build ast = Inl e"
    by (simp add: convert_remote_def split: prod.splits sum.splits)
next
  assume "build ast = Inl e"
  then show "snd (convert_remote batches_of apply terminator start doc ast) = []"
    by (simp add: convert_remote_def)
qed

theorem remote_failure_propagated_witness:
  "build [ParagraphB [Text ''Hi'']] = Inr [Paragraph [Run ''Hi'' plain]] \<and>
   map (\<lambda>x. [x]) (emit 0 0 [Paragraph [Run ''Hi'' plain]]) =
     [[InsertText 0 ''Hi'']] @ [UpdateStyle (0, 2) plain] # [] \<and>
   apply_batches (\<lambda>doc batch. if doc = 1 then Inl ''quota exceeded'' else Inr (Suc doc)) 0
       [[InsertText 0 ''Hi'']] = (Inr 1, [[InsertText 0 ''Hi'']]) \<and>
   convert_remote (map (\<lambda>x. [x]))
       (\<lambda>doc batch. if doc = 1 then Inl ''quota exceeded'' else Inr (Suc doc)) 0 0 0
       [ParagraphB [Text ''Hi'']] =
     (Inl (RemoteApplyFailure ''quota exceeded''),
      [[InsertText 0 ''Hi''], [UpdateStyle (0, 2) plain]]) \<and>
   build [HeadingB 7 [Text ''Hi'']] = Inl UnsupportedNesting \<and>
   convert_remote (map (\<lambda>x. [x]))
       (\<lambda>doc batch. if doc = 1 then Inl ''quota exceeded'' else Inr (Suc doc)) 0 0 0
       [HeadingB 7 [Text ''Hi'']] =
     (Inl (InputProblem UnsupportedNesting), [])"
proof -
  let ?collaborator = "\<lambda>(doc::nat) (batch::RemoteOperation list).
     if doc = 1 then Inl ''quota exceeded'' else (Inr (Suc doc) :: string + nat)"
  let ?cut = "map (\<lambda>x::RemoteOperation. [x])"
  have b: "build [ParagraphB [Text ''Hi'']] = Inr [Paragraph [Run ''Hi'' plain]]"
    by simp
  have e: "?cut (emit 0 0 [Paragraph [Run ''Hi'' plain]]) =
      [[InsertText 0 ''Hi'']] @ [UpdateStyle (0, 2) plain] # []"
    by simp
  have a: "apply_batches ?collaborator 0 [[InsertText 0 ''Hi'']] = (Inr 1, [[InsertText 0 ''Hi'']])"
    by simp
  have r: "?collaborator 1 [UpdateStyle (0, 2) plain] = Inl ''quota exceeded''"
    by simp
  have 1: "convert_remote ?cut ?collaborator 0 0 0 [ParagraphB [Text ''Hi'']] =
      (Inl (RemoteApplyFailure ''quota exceeded''), [[InsertText 0 ''Hi''], [UpdateStyle (0, 2) plain]])"
    using remote_failure_propagated [where ast = "[ParagraphB [Text ''Hi'']]"
        and elements = "[Paragraph [Run ''Hi'' plain]]" and batches_of = ?cut
        and ?apply = ?collaborator
        and terminator = 0 and start = 0 and before = "[[InsertText 0 ''Hi'']]"
        and b = "[UpdateStyle (0, 2) plain]" and after = "[]" and doc = 0 and doc' = 1
        and payload = "''quota exceeded''"] b e a r
    by simp
  have f: "build [HeadingB 7 [Text ''Hi'']] = Inl UnsupportedNesting"
    by simp
  have 2: "fst (convert_remote ?cut ?collaborator 0 0 0 [HeadingB 7 [Text ''Hi'']]) =
      Inl (InputProblem UnsupportedNesting)"
    and 3: "snd (convert_remote ?cut ?collaborator 0 0 0 [HeadingB 7 [Text ''Hi'']]) = []"
    using remote_failure_propagated [where ast = "[HeadingB 7 [Text ''Hi'']]"
        and e = UnsupportedNesting and batches_of = ?cut and terminator = 0 and start = 0
        and doc = 0 and ?apply = ?collaborator] f
    by blast+
  from 2 3 have 4: "convert_remote ?cut ?collaborator 0 0 0 [HeadingB 7 [Text ''Hi'']] =
      (Inl (InputProblem UnsupportedNesting), [])"
    by (simp add: prod_eq_iff)
  from b e a 1 f 4 show ?thesis
    by simp
qed

end
